theory Spec2Isabelle
  imports Main "HOL-Library.Word"
begin

unbundle bit_operations_syntax

section \<open>OpenPSD: status codes and bytes\<close>

text \<open>
  The status codes of \<^verbatim>\<open>psd_error.h\<close>. A C function that returns a status and fills
  output parameters is a function into \<open>psd_status + 'a\<close>: \<open>Inl e\<close> is the error
  return, \<open>Inr v\<close> is \<^verbatim>\<open>PSD_OK\<close> with the outputs \<open>v\<close>. Functions whose
  outputs are also written on failure return a pair of the status and the outputs.
  Pointers handed to the functions are taken to be valid (non-null) unless a function's
  model says otherwise, and allocations are taken to succeed.
\<close>

datatype psd_status =
    PSD_OK
  | PSD_ERR_INVALID_ARGUMENT
  | PSD_ERR_OUT_OF_MEMORY
  | PSD_ERR_NULL_POINTER
  | PSD_ERR_STREAM_INVALID
  | PSD_ERR_STREAM_EOF
  | PSD_ERR_INVALID_FILE_FORMAT
  | PSD_ERR_INVALID_HEADER
  | PSD_ERR_UNSUPPORTED_VERSION
  | PSD_ERR_CORRUPT_DATA
  | PSD_ERR_UNSUPPORTED_FEATURE
  | PSD_ERR_UNSUPPORTED_COMPRESSION
  | PSD_ERR_UNSUPPORTED_COLOR_MODE
  | PSD_ERR_BUFFER_TOO_SMALL
  | PSD_ERR_OUT_OF_RANGE

type_synonym u8 = "8 word"
type_synonym u16 = "16 word"
type_synonym u32 = "32 word"
type_synonym u64 = "64 word"
type_synonym i32 = "32 word"

section \<open>PackBits, one row\<close>

subsection \<open>\<^verbatim>\<open>psd_packbits_decode_row\<close> (psd\_layer\_decode.c)\<close>

text \<open>
  The while loop of \<^verbatim>\<open>psd_packbits_decode_row\<close>. \<open>si\<close> and \<open>di\<close> are the
  source and destination indices, \<open>dst\<close> is the part of the destination buffer written
  so far (the bytes \<open>dst[0..di)\<close>). The header byte is read as \<^verbatim>\<open>int8_t\<close>
  (\<open>sint\<close>). The loop returns the error it stops with, or the final indices and output.
\<close>

function packbits_loop ::
  "u8 list \<Rightarrow> nat \<Rightarrow> nat \<Rightarrow> nat \<Rightarrow> u8 list \<Rightarrow> psd_status + (nat \<times> nat \<times> u8 list)"
where
  "packbits_loop src dst_len si di dst =
    (if si < length src \<and> di < dst_len then
       (if 0 \<le> sint (src ! si) then
          (if si + 1 + (nat (sint (src ! si)) + 1) > length src then Inl PSD_ERR_CORRUPT_DATA
           else if di + (nat (sint (src ! si)) + 1) > dst_len then Inl PSD_ERR_CORRUPT_DATA
           else packbits_loop src dst_len
                  (si + 1 + (nat (sint (src ! si)) + 1))
                  (di + (nat (sint (src ! si)) + 1))
                  (dst @ take (nat (sint (src ! si)) + 1) (drop (si + 1) src)))
        else if -127 \<le> sint (src ! si) then
          (if si + 1 \<ge> length src then Inl PSD_ERR_CORRUPT_DATA
           else if di + nat (1 - sint (src ! si)) > dst_len then Inl PSD_ERR_CORRUPT_DATA
           else packbits_loop src dst_len (si + 2)
                  (di + nat (1 - sint (src ! si)))
                  (dst @ replicate (nat (1 - sint (src ! si))) (src ! (si + 1))))
        else packbits_loop src dst_len (si + 1) di dst)
     else Inr (si, di, dst))"
  by pat_completeness auto
termination
  by (relation "measure (\<lambda>(src, dst_len, si, di, dst). length src - si)") auto

declare packbits_loop.simps [simp del]

definition psd_packbits_decode_row :: "u8 list \<Rightarrow> nat \<Rightarrow> psd_status + u8 list" where
  "psd_packbits_decode_row src dst_len =
    (case packbits_loop src dst_len 0 0 [] of
       Inl e \<Rightarrow> Inl e
     | Inr (si, di, dst) \<Rightarrow>
         if si \<noteq> length src \<or> di \<noteq> dst_len then Inl PSD_ERR_CORRUPT_DATA else Inr dst)"

subsection \<open>\<^verbatim>\<open>psd_rle_decode_scanline\<close> (psd\_rle.c)\<close>

text \<open>
  The loop of \<^verbatim>\<open>psd_rle_decode_scanline\<close>; the header byte is read unsigned.
  The loop tests the destination index first. After the loop only the number of
  decompressed bytes is compared with \<open>width\<close>.
\<close>

function rle_scanline_loop ::
  "u8 list \<Rightarrow> nat \<Rightarrow> nat \<Rightarrow> nat \<Rightarrow> u8 list \<Rightarrow> psd_status + (nat \<times> nat \<times> u8 list)"
where
  "rle_scanline_loop compressed width comp_pos decomp_pos decompressed =
    (if decomp_pos < width \<and> comp_pos < length compressed then
       (if unat (compressed ! comp_pos) < 128 then
          (if decomp_pos + (unat (compressed ! comp_pos) + 1) > width
             then Inl PSD_ERR_CORRUPT_DATA
           else if comp_pos + 1 + (unat (compressed ! comp_pos) + 1) > length compressed
             then Inl PSD_ERR_CORRUPT_DATA
           else rle_scanline_loop compressed width
                  (comp_pos + 1 + (unat (compressed ! comp_pos) + 1))
                  (decomp_pos + (unat (compressed ! comp_pos) + 1))
                  (decompressed @
                     take (unat (compressed ! comp_pos) + 1) (drop (comp_pos + 1) compressed)))
        else if unat (compressed ! comp_pos) = 128 then
          rle_scanline_loop compressed width (comp_pos + 1) decomp_pos decompressed
        else
          (if comp_pos + 1 \<ge> length compressed then Inl PSD_ERR_CORRUPT_DATA
           else if decomp_pos + (257 - unat (compressed ! comp_pos)) > width
             then Inl PSD_ERR_CORRUPT_DATA
           else rle_scanline_loop compressed width (comp_pos + 2)
                  (decomp_pos + (257 - unat (compressed ! comp_pos)))
                  (decompressed @
                     replicate (257 - unat (compressed ! comp_pos)) (compressed ! (comp_pos + 1)))))
     else Inr (comp_pos, decomp_pos, decompressed))"
  by pat_completeness auto
termination
  by (relation "measure (\<lambda>(c, w, comp_pos, d, out). length c - comp_pos)") auto

declare rle_scanline_loop.simps [simp del]

text \<open>
  On success the function stores \<open>decomp_pos\<close> in \<^verbatim>\<open>*out_len\<close>; the model returns
  the decompressed bytes, whose number it is.
\<close>

definition psd_rle_decode_scanline :: "u8 list \<Rightarrow> nat \<Rightarrow> psd_status + u8 list" where
  "psd_rle_decode_scanline compressed width =
    (case rle_scanline_loop compressed width 0 0 [] of
       Inl e \<Rightarrow> Inl e
     | Inr (comp_pos, decomp_pos, decompressed) \<Rightarrow>
         if decomp_pos \<noteq> width then Inl PSD_ERR_CORRUPT_DATA else Inr decompressed)"

section \<open>The document\<close>

text \<open>
  The structures of \<^verbatim>\<open>psd_layer_channel.h\<close>, \<^verbatim>\<open>psd_types.h\<close>,
  \<^verbatim>\<open>psd_layer.h\<close> and \<^verbatim>\<open>psd_context.h\<close>. A pointer to a buffer is an
  optional byte list (\<open>None\<close> is \<^verbatim>\<open>NULL\<close>). Signed fields are words read with
  \<open>sint\<close>. The array \<^verbatim>\<open>layers.layers\<close> (\<open>doc_layers\<close>) is the list of its first
  \<^verbatim>\<open>layer_count\<close> records, so \<open>layer_count\<close> is the length of the list;
  likewise \<open>channels\<close> is the list of the \<^verbatim>\<open>channel_count\<close> channels of a layer.
  The fields of the document carry the prefix \<open>doc_\<close>.
  The allocator, the image resources and the never-assigned \<^verbatim>\<open>descriptor\<close> pointer
  of a layer are left out.
\<close>

record psd_layer_channel_data_t =
  channel_id :: "16 word"
  compression :: u8
  compressed_length :: u64
  compressed_data :: "u8 list option"
  decoded_data :: "u8 list option"
  decoded_length :: u64
  is_decoded :: bool

record psd_layer_bounds_t =
  bounds_top :: i32
  bounds_left :: i32
  bounds_bottom :: i32
  bounds_right :: i32

record psd_layer_features_t =
  is_group_start :: bool
  is_group_end :: bool
  has_text :: bool
  has_vector_mask :: bool
  has_smart_object :: bool
  has_adjustment :: bool
  has_fill :: bool
  has_effects :: bool
  has_3d :: bool
  has_video :: bool

datatype psd_layer_type_t =
    PSD_LAYER_TYPE_GROUP_END
  | PSD_LAYER_TYPE_GROUP_START
  | PSD_LAYER_TYPE_PIXEL
  | PSD_LAYER_TYPE_TEXT
  | PSD_LAYER_TYPE_SMART_OBJECT
  | PSD_LAYER_TYPE_ADJUSTMENT
  | PSD_LAYER_TYPE_FILL
  | PSD_LAYER_TYPE_EFFECTS
  | PSD_LAYER_TYPE_3D
  | PSD_LAYER_TYPE_VIDEO
  | PSD_LAYER_TYPE_EMPTY

record psd_layer_record_t =
  bounds :: psd_layer_bounds_t
  channels :: "psd_layer_channel_data_t list"
  blend_sig :: u32
  blend_key :: u32
  opacity :: u8
  clipping :: u8
  flags :: u8
  name :: "u8 list option"
  additional_data :: "u8 list option"
  additional_length :: u64
  features :: psd_layer_features_t

text \<open>
  The derived text-layer record of \<^verbatim>\<open>psd_text_layer.h\<close>. A \<^verbatim>\<open>double\<close> is kept
  as the 64 bits read from the file. The descriptor pointers and the raw engine data,
  which parsing leaves \<^verbatim>\<open>NULL\<close>, are left out; the fields \<^verbatim>\<open>layer_index\<close>
  and \<^verbatim>\<open>source\<close> carry the prefix \<open>tl_\<close>.
\<close>

datatype psd_text_source_t =
  PSD_TEXT_SOURCE_UNKNOWN | PSD_TEXT_SOURCE_TYSH | PSD_TEXT_SOURCE_TYSH_LEGACY

record psd_text_transform_t =
  xx :: u64
  xy :: u64
  yx :: u64
  yy :: u64
  tx :: u64
  ty :: u64

record psd_text_rect_t =
  rect_left :: u64
  rect_top :: u64
  rect_right :: u64
  rect_bottom :: u64

record psd_text_layer_t =
  tl_layer_index :: u32
  tl_source :: psd_text_source_t
  tysh_version :: u16
  text_version :: u16
  text_desc_version :: u32
  warp_version :: u16
  warp_desc_version :: u32
  transform :: psd_text_transform_t
  text_bounds :: psd_text_rect_t
  raw_tysh :: "u8 list option"
  raw_tysh_len :: u64
  has_rendered_pixels :: bool

record psd_composite_image_t =
  composite_data :: "u8 list option"
  composite_data_length :: u64
  composite_compression :: u32

record psd_document =
  doc_is_psb :: bool
  doc_width :: u32
  doc_height :: u32
  doc_channels :: u16
  doc_depth :: u16
  doc_color_mode :: u16
  doc_color_data :: "u8 list option"
  doc_layers :: "psd_layer_record_t list"
  doc_has_transparency_layer :: bool
  doc_composite :: psd_composite_image_t
  doc_text_layers :: "psd_text_layer_t list"

definition layer_count :: "psd_document \<Rightarrow> int" where
  "layer_count doc = int (length (doc_layers doc))"

definition channel_count :: "psd_layer_record_t \<Rightarrow> nat" where
  "channel_count layer = length (channels layer)"

definition channel_init :: psd_layer_channel_data_t where
  "channel_init =
    \<lparr> channel_id = 0, compression = 0, compressed_length = 0, compressed_data = None,
      decoded_data = None, decoded_length = 0, is_decoded = False \<rparr>"

text \<open>
  A layer as the initialisation loop of \<^verbatim>\<open>psd_parse_layer_info\<close> leaves it, and a
  document as \<^verbatim>\<open>psd_parse_ex\<close> initialises it.
\<close>

definition features_init :: psd_layer_features_t where
  "features_init =
    \<lparr> is_group_start = False, is_group_end = False, has_text = False,
      has_vector_mask = False, has_smart_object = False, has_adjustment = False,
      has_fill = False, has_effects = False, has_3d = False, has_video = False \<rparr>"

definition layer_init :: psd_layer_record_t where
  "layer_init =
    \<lparr> bounds = \<lparr> bounds_top = 0, bounds_left = 0, bounds_bottom = 0, bounds_right = 0 \<rparr>,
      channels = [], blend_sig = 0, blend_key = 0,
      opacity = 255, clipping = 0, flags = 0, name = None,
      additional_data = None, additional_length = 0, features = features_init \<rparr>"

definition document_init :: psd_document where
  "document_init =
    \<lparr> doc_is_psb = False, doc_width = 0, doc_height = 0, doc_channels = 0, doc_depth = 0,
      doc_color_mode = 0, doc_color_data = None, doc_layers = [],
      doc_has_transparency_layer = False,
      doc_composite = \<lparr> composite_data = None, composite_data_length = 0,
                    composite_compression = 0 \<rparr>,
      doc_text_layers = [] \<rparr>"

subsection \<open>\<^verbatim>\<open>psd_document_get_layer_type\<close>\<close>

definition psd_document_get_layer_type ::
  "psd_document \<Rightarrow> i32 \<Rightarrow> psd_status + psd_layer_type_t"
where
  "psd_document_get_layer_type doc layer_index =
    (if sint layer_index < 0 \<or> sint layer_index \<ge> layer_count doc
       then Inl PSD_ERR_OUT_OF_RANGE
     else
       let layer = doc_layers doc ! nat (sint layer_index);
           f = features layer
       in Inr
         (if is_group_start f then PSD_LAYER_TYPE_GROUP_START
          else if is_group_end f then PSD_LAYER_TYPE_GROUP_END
          else if has_text f then PSD_LAYER_TYPE_TEXT
          else if has_smart_object f then PSD_LAYER_TYPE_SMART_OBJECT
          else if has_adjustment f then PSD_LAYER_TYPE_ADJUSTMENT
          else if has_fill f then PSD_LAYER_TYPE_FILL
          else if has_effects f then PSD_LAYER_TYPE_EFFECTS
          else if has_3d f then PSD_LAYER_TYPE_3D
          else if has_video f then PSD_LAYER_TYPE_VIDEO
          else if channel_count layer > 0 then PSD_LAYER_TYPE_PIXEL
          else PSD_LAYER_TYPE_EMPTY))"

section \<open>Layer channel decoding (psd\_layer\_decode.c, psd\_zip.c)\<close>

subsection \<open>Big-endian reads from a buffer\<close>

definition read_be_u16 :: "u8 list \<Rightarrow> nat \<Rightarrow> u16" where
  "read_be_u16 p off = push_bit 8 (ucast (p ! off)) OR ucast (p ! (off + 1))"

definition read_be_u32 :: "u8 list \<Rightarrow> nat \<Rightarrow> u32" where
  "read_be_u32 p off =
     push_bit 24 (ucast (p ! off)) OR push_bit 16 (ucast (p ! (off + 1)))
       OR push_bit 8 (ucast (p ! (off + 2))) OR ucast (p ! (off + 3))"

subsection \<open>\<^verbatim>\<open>parse_rle_row_counts\<close>\<close>

text \<open>
  The row count of row \<open>y\<close> in a table of \<open>row_bytes\<close>-byte entries, as both loops
  over the table read it. Sizes are \<^verbatim>\<open>uint64_t\<close> in C; they are natural numbers
  here, and a product that can pass \<open>2^64\<close> is reduced explicitly.
\<close>

definition rle_row_count :: "u8 list \<Rightarrow> nat \<Rightarrow> nat \<Rightarrow> nat" where
  "rle_row_count compressed row_bytes y =
     (if row_bytes = 2 then unat (read_be_u16 compressed (y * row_bytes))
      else unat (read_be_u32 compressed (y * row_bytes)))"

function rle_counts_loop ::
  "u8 list \<Rightarrow> nat \<Rightarrow> nat \<Rightarrow> nat \<Rightarrow> nat \<Rightarrow> nat \<Rightarrow> nat \<Rightarrow> psd_status + nat"
where
  "rle_counts_loop compressed compressed_len height row_bytes counts_size y total_bytes =
    (if y < height then
       (if total_bytes + rle_row_count compressed row_bytes y > compressed_len - counts_size
          then Inl PSD_ERR_CORRUPT_DATA
        else rle_counts_loop compressed compressed_len height row_bytes counts_size
               (y + 1) (total_bytes + rle_row_count compressed row_bytes y))
     else Inr total_bytes)"
  by pat_completeness auto
termination
  by (relation "measure (\<lambda>(c, l, height, r, cs, y, t). height - y)") auto

declare rle_counts_loop.simps [simp del]

text \<open>On success the result is the pair \<open>(counts_size, total_rle_bytes)\<close>.\<close>

definition parse_rle_row_counts ::
  "u8 list \<Rightarrow> nat \<Rightarrow> u32 \<Rightarrow> nat \<Rightarrow> psd_status + (nat \<times> nat)"
where
  "parse_rle_row_counts compressed compressed_len height row_bytes =
    (let counts_size = unat height * row_bytes in
     if compressed_len < counts_size then Inl PSD_ERR_CORRUPT_DATA
     else
       (case rle_counts_loop compressed compressed_len (unat height) row_bytes counts_size 0 0 of
          Inl e \<Rightarrow> Inl e
        | Inr total_bytes \<Rightarrow>
            if compressed_len < counts_size + total_bytes then Inl PSD_ERR_CORRUPT_DATA
            else Inr (counts_size, total_bytes)))"

subsection \<open>The RLE case of \<^verbatim>\<open>psd_layer_channel_decode\<close>\<close>

text \<open>
  The choice of the row-count width (the \<^verbatim>\<open>if (st2 == PSD_OK && st4 == PSD_OK)\<close>
  chain): the result is \<open>(row_count_bytes, counts_size, total_rle_bytes)\<close>.
\<close>

definition rle_row_count_selection ::
  "u8 list \<Rightarrow> nat \<Rightarrow> u32 \<Rightarrow> psd_status + (nat \<times> nat \<times> nat)"
where
  "rle_row_count_selection compressed compressed_len height =
    (case (parse_rle_row_counts compressed compressed_len height 2,
           parse_rle_row_counts compressed compressed_len height 4) of
       (Inr (counts_size2, total2), Inr (counts_size4, total4)) \<Rightarrow>
          if counts_size4 + total4 = compressed_len \<and> counts_size2 + total2 \<noteq> compressed_len
            then Inr (4, counts_size4, total4)
          else if counts_size2 + total2 = compressed_len
                  \<and> counts_size4 + total4 \<noteq> compressed_len
            then Inr (2, counts_size2, total2)
          else Inr (2, counts_size2, total2)
     | (Inr (counts_size2, total2), Inl e4) \<Rightarrow> Inr (2, counts_size2, total2)
     | (Inl e2, Inr (counts_size4, total4)) \<Rightarrow> Inr (4, counts_size4, total4)
     | (Inl e2, Inl e4) \<Rightarrow> Inl PSD_ERR_CORRUPT_DATA)"

text \<open>
  The row-by-row loop. Row \<open>y\<close> is decoded into \<open>decoded + y * scanline_width\<close>, so
  the buffer after the loop is the concatenation of the rows; \<open>decoded\<close> is the part
  written so far.
\<close>

function rle_rows_loop ::
  "u8 list \<Rightarrow> nat \<Rightarrow> nat \<Rightarrow> nat \<Rightarrow> nat \<Rightarrow> nat \<Rightarrow> nat \<Rightarrow> nat \<Rightarrow> u8 list
     \<Rightarrow> psd_status + u8 list"
where
  "rle_rows_loop compressed counts_size total_rle_bytes row_count_bytes height scanline_width
      y rle_off decoded =
    (if y < height then
       (if rle_off + rle_row_count compressed row_count_bytes y > total_rle_bytes
          then Inl PSD_ERR_CORRUPT_DATA
        else
          (case psd_packbits_decode_row
                  (take (rle_row_count compressed row_count_bytes y)
                     (drop (counts_size + rle_off) compressed))
                  scanline_width of
             Inl row_st \<Rightarrow> Inl row_st
           | Inr row \<Rightarrow>
               rle_rows_loop compressed counts_size total_rle_bytes row_count_bytes height
                 scanline_width (y + 1)
                 (rle_off + rle_row_count compressed row_count_bytes y) (decoded @ row)))
     else Inr decoded)"
  by pat_completeness auto
termination
  by (relation "measure (\<lambda>(c, cs, t, r, height, w, y, off, d). height - y)") auto

declare rle_rows_loop.simps [simp del]

subsection \<open>DEFLATE and prediction reversal (psd\_zip.c, built with PSD\_ENABLE\_ZIP)\<close>

text \<open>
  zlib is an external library. Its part is the parameter \<open>inflate\<close>:
  \<open>inflate zlib_framed input avail_out\<close> is \<open>Some out\<close> when
  \<^verbatim>\<open>inflateInit2\<close> succeeds and \<^verbatim>\<open>inflate(Z_FINISH)\<close> returns
  \<^verbatim>\<open>Z_STREAM_END\<close> after writing the bytes \<open>out\<close>, and \<open>None\<close> otherwise. The
  first attempt is raw DEFLATE, the second zlib-framed.
\<close>

type_synonym inflate_t = "bool \<Rightarrow> u8 list \<Rightarrow> nat \<Rightarrow> u8 list option"

definition psd_zip_decompress ::
  "inflate_t \<Rightarrow> u8 list option \<Rightarrow> nat \<Rightarrow> nat \<Rightarrow> psd_status + u8 list"
where
  "psd_zip_decompress inflate compressed compressed_len decompressed_len =
    (case compressed of
       None \<Rightarrow> Inl PSD_ERR_INVALID_ARGUMENT
     | Some c \<Rightarrow>
        (case inflate False (take compressed_len c) decompressed_len of
           Some out \<Rightarrow>
             if length out = decompressed_len then Inr out
             else (case inflate True (take compressed_len c) decompressed_len of
                     Some out2 \<Rightarrow>
                       if length out2 = decompressed_len then Inr out2
                       else Inl PSD_ERR_CORRUPT_DATA
                   | None \<Rightarrow> Inl PSD_ERR_CORRUPT_DATA)
         | None \<Rightarrow>
             (case inflate True (take compressed_len c) decompressed_len of
                Some out2 \<Rightarrow>
                  if length out2 = decompressed_len then Inr out2
                  else Inl PSD_ERR_CORRUPT_DATA
              | None \<Rightarrow> Inl PSD_ERR_CORRUPT_DATA)))"

definition paeth_predictor :: "u8 \<Rightarrow> u8 \<Rightarrow> u8 \<Rightarrow> u8" where
  "paeth_predictor a b c =
    (let p = uint a + uint b - uint c;
         pa = \<bar>p - uint a\<bar>;
         pb = \<bar>p - uint b\<bar>;
         pc = \<bar>p - uint c\<bar>
     in if pa \<le> pb \<and> pa \<le> pc then a else if pb \<le> pc then b else c)"

text \<open>
  \<^verbatim>\<open>memmove(dst, src, n)\<close> inside one buffer, and a \<^verbatim>\<open>for\<close> loop without an
  early exit as a fold over its index range.
\<close>

definition memmove :: "u8 list \<Rightarrow> nat \<Rightarrow> nat \<Rightarrow> nat \<Rightarrow> u8 list" where
  "memmove buf dst src n = fold (\<lambda>k b. b[dst + k := buf ! (src + k)]) [0..<n] buf"

text \<open>
  \<^verbatim>\<open>psd_zip_reverse_prediction\<close> works in place on the \<open>scanline_length\<close> bytes at
  offset \<open>off\<close> of the buffer it is handed a pointer into; \<open>data\<close> is the offset of
  the filtered bytes. The sums are taken in \<^verbatim>\<open>int\<close> and cast back to
  \<^verbatim>\<open>uint8_t\<close>, which is addition of bytes; \<open>x div 2\<close> on bytes is the C division
  of the non-negative value.
\<close>

definition psd_zip_reverse_prediction ::
  "u8 list \<Rightarrow> nat \<Rightarrow> nat \<Rightarrow> nat \<Rightarrow> psd_status \<times> u8 list"
where
  "psd_zip_reverse_prediction buf off scanline_length bytes_per_pixel =
    (if scanline_length = 0 then (PSD_ERR_INVALID_ARGUMENT, buf)
     else if bytes_per_pixel = 0 \<or> bytes_per_pixel > 8 then (PSD_ERR_INVALID_ARGUMENT, buf)
     else
       let filter_type = buf ! off;
           data = off + 1;
           data_len = scanline_length - 1
       in
        if filter_type = 0 then (PSD_OK, memmove buf off data data_len)
        else if filter_type = 1 then
          (PSD_OK,
           memmove
             (fold (\<lambda>i b. b[data + i := b ! (data + i) + b ! (data + i - bytes_per_pixel)])
                [bytes_per_pixel..<data_len] buf)
             off data data_len)
        else if filter_type = 2 then (PSD_OK, memmove buf off data data_len)
        else if filter_type = 3 then
          (PSD_OK,
           memmove
             (fold (\<lambda>i b. b[data + i := b ! (data + i) + (b ! (data + i - bytes_per_pixel)) div 2])
                [bytes_per_pixel..<data_len]
                (fold (\<lambda>i b. b[data + i := b ! (data + i) + (b ! (data + i)) div 2])
                   [0..<bytes_per_pixel] buf))
             off data data_len)
        else if filter_type = 4 then
          (PSD_OK,
           memmove
             (fold (\<lambda>i b. b[data + i :=
                       b ! (data + i) + paeth_predictor (b ! (data + i - bytes_per_pixel)) 0 0])
                [bytes_per_pixel..<data_len]
                (fold (\<lambda>i b. b[data + i := b ! (data + i) + paeth_predictor 0 0 0])
                   [0..<bytes_per_pixel] buf))
             off data data_len)
        else (PSD_ERR_CORRUPT_DATA, buf))"

text \<open>
  The loop of \<^verbatim>\<open>psd_zip_decompress_with_prediction\<close> over the scanlines. It is
  entered only with \<open>scanline_width \<noteq> 0\<close>, which the function checks first; the loop
  condition repeats that check so that the recursion is total.
\<close>

function prediction_loop ::
  "u8 list \<Rightarrow> nat \<Rightarrow> nat \<Rightarrow> nat \<Rightarrow> nat \<Rightarrow> psd_status + u8 list"
where
  "prediction_loop decompressed decompressed_len scanline_width bytes_per_pixel offset =
    (if scanline_width \<noteq> 0 \<and> offset < decompressed_len then
       (if offset + (scanline_width + 1) > decompressed_len then Inr decompressed
        else
          (case psd_zip_reverse_prediction decompressed offset (scanline_width + 1)
                  bytes_per_pixel of
             (status, decompressed') \<Rightarrow>
               if status \<noteq> PSD_OK then Inl status
               else prediction_loop decompressed' decompressed_len scanline_width
                      bytes_per_pixel (offset + scanline_width)))
     else Inr decompressed)"
  by pat_completeness auto
termination
  by (relation "measure (\<lambda>(d, len, w, bpp, offset). len - offset)") auto

declare prediction_loop.simps [simp del]

definition psd_zip_decompress_with_prediction ::
  "inflate_t \<Rightarrow> u8 list option \<Rightarrow> nat \<Rightarrow> nat \<Rightarrow> nat \<Rightarrow> nat \<Rightarrow> psd_status + u8 list"
where
  "psd_zip_decompress_with_prediction inflate compressed compressed_len decompressed_len
      scanline_width bytes_per_pixel =
    (if scanline_width = 0 then Inl PSD_ERR_INVALID_ARGUMENT
     else
       (case psd_zip_decompress inflate compressed compressed_len decompressed_len of
          Inl status \<Rightarrow> Inl status
        | Inr decompressed \<Rightarrow>
            prediction_loop decompressed decompressed_len scanline_width bytes_per_pixel 0))"

subsection \<open>\<^verbatim>\<open>psd_layer_channel_decode\<close>\<close>

text \<open>
  The result is the status and the channel as the call leaves it. \<open>expected\<close> is
  \<^verbatim>\<open>expected_decoded_size\<close>, a \<^verbatim>\<open>uint64_t\<close> product.
\<close>

definition mark_decoded ::
  "psd_layer_channel_data_t \<Rightarrow> u8 list \<Rightarrow> nat \<Rightarrow> psd_layer_channel_data_t"
where
  "mark_decoded channel decoded expected =
     channel \<lparr> decoded_data := Some decoded, decoded_length := of_nat expected,
               is_decoded := True \<rparr>"

definition psd_layer_channel_decode ::
  "inflate_t \<Rightarrow> psd_layer_channel_data_t \<Rightarrow> u32 \<Rightarrow> u32 \<Rightarrow> u16
     \<Rightarrow> psd_status \<times> psd_layer_channel_data_t"
where
  "psd_layer_channel_decode inflate channel width height depth =
    (if is_decoded channel \<and> decoded_data channel \<noteq> None then (PSD_OK, channel)
     else
       let bytes_per_sample = (if unat depth \<ge> 8 then unat depth div 8 else 1);
           scanline_width = (if depth = 1 then (unat width + 7) div 8
                             else unat width * bytes_per_sample);
           expected = (scanline_width * unat height) mod 2 ^ 64;
           compressed_len = unat (compressed_length channel)
       in
        if depth \<noteq> 1 \<and> bytes_per_sample = 0 then (PSD_ERR_UNSUPPORTED_FEATURE, channel)
        else if compression channel = 0 then
          (if compressed_len < expected then (PSD_ERR_CORRUPT_DATA, channel)
           else (PSD_OK,
                 mark_decoded channel (take expected (the (compressed_data channel))) expected))
        else if compression channel = 1 then
          (case rle_row_count_selection (the (compressed_data channel)) compressed_len height of
             Inl e \<Rightarrow> (e, channel)
           | Inr (row_count_bytes, counts_size, total_rle_bytes) \<Rightarrow>
              (case rle_rows_loop (the (compressed_data channel)) counts_size total_rle_bytes
                      row_count_bytes (unat height) scanline_width 0 0 [] of
                 Inl e \<Rightarrow> (e, channel)
               | Inr decoded \<Rightarrow> (PSD_OK, mark_decoded channel decoded expected)))
        else if compression channel = 2 then
          (case psd_zip_decompress inflate (compressed_data channel) compressed_len expected of
             Inl status \<Rightarrow>
               if status = PSD_ERR_UNSUPPORTED_COMPRESSION
                 then (PSD_OK, channel \<lparr> decoded_data := None, decoded_length := 0,
                                          is_decoded := False \<rparr>)
               else (status, channel)
           | Inr decoded \<Rightarrow> (PSD_OK, mark_decoded channel decoded expected))
        else if compression channel = 3 then
          (case psd_zip_decompress_with_prediction inflate (compressed_data channel)
                  compressed_len expected scanline_width
                  (if depth = 1 then 1 else unat depth div 8) of
             Inl status \<Rightarrow>
               if status = PSD_ERR_UNSUPPORTED_COMPRESSION
                 then (PSD_OK, channel \<lparr> decoded_data := None, decoded_length := 0,
                                          is_decoded := False \<rparr>)
               else (status, channel)
           | Inr decoded \<Rightarrow> (PSD_OK, mark_decoded channel decoded expected))
        else (PSD_ERR_UNSUPPORTED_COMPRESSION, channel))"

text \<open>
  The two candidate totals in the words of the specification:
  \<open>total_w = w * rows + (sum of the row counts read at width w)\<close>.
\<close>

definition rle_total :: "u8 list \<Rightarrow> u32 \<Rightarrow> nat \<Rightarrow> nat" where
  "rle_total compressed height w =
     w * unat height + (\<Sum>y = 0..<unat height. rle_row_count compressed w y)"

section \<open>The byte source (psd\_stream.c, psd\_endian.c)\<close>

text \<open>
  The built-in stream over a caller-owned buffer: \<^verbatim>\<open>psd_buffer_stream_t\<close> with its
  \<^verbatim>\<open>read\<close>, \<^verbatim>\<open>seek\<close> and \<^verbatim>\<open>tell\<close> callbacks, which the
  \<^verbatim>\<open>psd_stream_*\<close> functions call through the vtable. A stream function returns its
  result together with the stream as it leaves it, also on failure. \<^verbatim>\<open>size_t\<close> is
  taken to be 64 bits wide, so \<^verbatim>\<open>psd_u64_to_size\<close> never fails.
\<close>

record psd_stream =
  buffer :: "u8 list"
  position :: nat

definition psd_stream_read :: "psd_stream \<Rightarrow> nat \<Rightarrow> u8 list \<times> psd_stream" where
  "psd_stream_read stream count =
    (let remaining = length (buffer stream) - position stream;
         to_read = (if count < remaining then count else remaining)
     in (take to_read (drop (position stream) (buffer stream)),
         stream \<lparr> position := position stream + to_read \<rparr>))"

text \<open>The callbacks return the new offset, or a negative status (\<open>Inl\<close>).\<close>

definition psd_stream_seek :: "psd_stream \<Rightarrow> int \<Rightarrow> (psd_status + int) \<times> psd_stream" where
  "psd_stream_seek stream offset =
    (if offset < 0 \<or> offset > int (length (buffer stream))
       then (Inl PSD_ERR_OUT_OF_RANGE, stream)
     else (Inr offset, stream \<lparr> position := nat offset \<rparr>))"

definition psd_stream_tell :: "psd_stream \<Rightarrow> int" where
  "psd_stream_tell stream = int (position stream)"

text \<open>
  The loop of \<^verbatim>\<open>psd_stream_read_exact\<close>; \<open>got\<close> holds the \<open>read_total\<close> bytes
  read so far.
\<close>

function read_exact_loop ::
  "psd_stream \<Rightarrow> nat \<Rightarrow> u8 list \<Rightarrow> (psd_status + u8 list) \<times> psd_stream"
where
  "read_exact_loop stream count got =
    (if length got < count then
       (if fst (psd_stream_read stream (count - length got)) = []
          then (Inl PSD_ERR_STREAM_EOF, snd (psd_stream_read stream (count - length got)))
        else read_exact_loop (snd (psd_stream_read stream (count - length got))) count
               (got @ fst (psd_stream_read stream (count - length got))))
     else (Inr got, stream))"
  by pat_completeness auto
termination
  by (relation "measure (\<lambda>(stream, count, got). count - length got)")
    (auto simp flip: length_greater_0_conv)

declare read_exact_loop.simps [simp del]

definition psd_stream_read_exact ::
  "psd_stream \<Rightarrow> nat \<Rightarrow> (psd_status + u8 list) \<times> psd_stream"
where
  "psd_stream_read_exact stream count = read_exact_loop stream count []"

definition psd_read_be16 :: "u8 list \<Rightarrow> u16" where
  "psd_read_be16 b = read_be_u16 b 0"

definition psd_read_be32 :: "u8 list \<Rightarrow> u32" where
  "psd_read_be32 b = read_be_u32 b 0"

definition psd_read_be64 :: "u8 list \<Rightarrow> u64" where
  "psd_read_be64 b = push_bit 32 (ucast (read_be_u32 b 0)) OR ucast (read_be_u32 b 4)"

definition psd_stream_read_be16 :: "psd_stream \<Rightarrow> (psd_status + u16) \<times> psd_stream" where
  "psd_stream_read_be16 stream =
    (case psd_stream_read_exact stream 2 of
       (Inl status, stream') \<Rightarrow> (Inl status, stream')
     | (Inr b, stream') \<Rightarrow> (Inr (psd_read_be16 b), stream'))"

definition psd_stream_read_be32 :: "psd_stream \<Rightarrow> (psd_status + u32) \<times> psd_stream" where
  "psd_stream_read_be32 stream =
    (case psd_stream_read_exact stream 4 of
       (Inl status, stream') \<Rightarrow> (Inl status, stream')
     | (Inr b, stream') \<Rightarrow> (Inr (psd_read_be32 b), stream'))"

definition psd_stream_read_be64 :: "psd_stream \<Rightarrow> (psd_status + u64) \<times> psd_stream" where
  "psd_stream_read_be64 stream =
    (case psd_stream_read_exact stream 8 of
       (Inl status, stream') \<Rightarrow> (Inl status, stream')
     | (Inr b, stream') \<Rightarrow> (Inr (psd_read_be64 b), stream'))"

definition SIZE_MAX :: nat where
  "SIZE_MAX = 2 ^ 64 - 1"

definition psd_stream_read_length ::
  "psd_stream \<Rightarrow> bool \<Rightarrow> (psd_status + u64) \<times> psd_stream"
where
  "psd_stream_read_length stream is_psb =
    (if is_psb then
       (case psd_stream_read_be64 stream of
          (Inl status, stream') \<Rightarrow> (Inl status, stream')
        | (Inr value64, stream') \<Rightarrow>
            if unat value64 > SIZE_MAX then (Inl PSD_ERR_OUT_OF_RANGE, stream')
            else (Inr value64, stream'))
     else
       (case psd_stream_read_be32 stream of
          (Inl status, stream') \<Rightarrow> (Inl status, stream')
        | (Inr value32, stream') \<Rightarrow> (Inr (ucast value32), stream')))"

text \<open>\<^verbatim>\<open>psd_stream_skip\<close> reads and discards in pieces of at most 4096 bytes.\<close>

function skip_loop :: "psd_stream \<Rightarrow> nat \<Rightarrow> nat \<Rightarrow> psd_status \<times> psd_stream" where
  "skip_loop stream count skipped =
    (if skipped < count then
       (case psd_stream_read_exact stream (min (count - skipped) 4096) of
          (Inl status, stream') \<Rightarrow> (status, stream')
        | (Inr b, stream') \<Rightarrow> skip_loop stream' count (skipped + min (count - skipped) 4096))
     else (PSD_OK, stream))"
  by pat_completeness auto
termination
  by (relation "measure (\<lambda>(stream, count, skipped). count - skipped)") auto

declare skip_loop.simps [simp del]

definition psd_stream_skip :: "psd_stream \<Rightarrow> nat \<Rightarrow> psd_status \<times> psd_stream" where
  "psd_stream_skip stream count =
    (if count = 0 then (PSD_OK, stream) else skip_loop stream count 0)"

section \<open>The header (psd\_parse.c)\<close>

definition PSD_SIGNATURE :: u32 where "PSD_SIGNATURE = 0x38425053"
definition PSD_VERSION_PSD :: u16 where "PSD_VERSION_PSD = 1"
definition PSD_VERSION_PSB :: u16 where "PSD_VERSION_PSB = 2"
definition PSD_MAX_CHANNELS :: u16 where "PSD_MAX_CHANNELS = 56"
definition PSD_MAX_DIMENSION_STANDARD :: u32 where "PSD_MAX_DIMENSION_STANDARD = 30000"
definition PSD_MAX_DIMENSION_PSB :: u32 where "PSD_MAX_DIMENSION_PSB = 300000"

text \<open>
  \<^verbatim>\<open>psd_parse_header\<close> fills the document as it reads; the result is the status, the
  document and the stream as the function leaves them.
\<close>

definition psd_parse_header ::
  "psd_stream \<Rightarrow> psd_document \<Rightarrow> psd_status \<times> psd_document \<times> psd_stream"
where
  "psd_parse_header stream doc =
    (case psd_stream_read_be32 stream of
       (Inl status, s1) \<Rightarrow> (status, doc, s1)
     | (Inr signature, s1) \<Rightarrow>
    if signature \<noteq> PSD_SIGNATURE then (PSD_ERR_INVALID_FILE_FORMAT, doc, s1) else
    (case psd_stream_read_be16 s1 of
       (Inl status, s2) \<Rightarrow> (status, doc, s2)
     | (Inr version, s2) \<Rightarrow>
    if version \<noteq> PSD_VERSION_PSD \<and> version \<noteq> PSD_VERSION_PSB
      then (PSD_ERR_UNSUPPORTED_VERSION, doc, s2) else
    let doc1 = doc \<lparr> doc_is_psb := (version = PSD_VERSION_PSB) \<rparr> in
    (case psd_stream_read_exact s2 6 of
       (Inl status, s3) \<Rightarrow> (status, doc1, s3)
     | (Inr reserved_bytes, s3) \<Rightarrow>
    (case psd_stream_read_be16 s3 of
       (Inl status, s4) \<Rightarrow> (status, doc1, s4)
     | (Inr channels_v, s4) \<Rightarrow>
    let doc2 = doc1 \<lparr> doc_channels := channels_v \<rparr> in
    if doc_channels doc2 < 1 \<or> doc_channels doc2 > PSD_MAX_CHANNELS
      then (PSD_ERR_INVALID_HEADER, doc2, s4) else
    (case psd_stream_read_be32 s4 of
       (Inl status, s5) \<Rightarrow> (status, doc2, s5)
     | (Inr height_v, s5) \<Rightarrow>
    let doc3 = doc2 \<lparr> doc_height := height_v \<rparr> in
    (case psd_stream_read_be32 s5 of
       (Inl status, s6) \<Rightarrow> (status, doc3, s6)
     | (Inr width_v, s6) \<Rightarrow>
    let doc4 = doc3 \<lparr> doc_width := width_v \<rparr>;
        max_dim = (if doc_is_psb doc4 then PSD_MAX_DIMENSION_PSB
                   else PSD_MAX_DIMENSION_STANDARD) in
    if doc_width doc4 < 1 \<or> doc_width doc4 > max_dim
        \<or> doc_height doc4 < 1 \<or> doc_height doc4 > max_dim
      then (PSD_ERR_INVALID_HEADER, doc4, s6) else
    (case psd_stream_read_be16 s6 of
       (Inl status, s7) \<Rightarrow> (status, doc4, s7)
     | (Inr depth_v, s7) \<Rightarrow>
    let doc5 = doc4 \<lparr> doc_depth := depth_v \<rparr> in
    if doc_depth doc5 \<noteq> 1 \<and> doc_depth doc5 \<noteq> 8 \<and> doc_depth doc5 \<noteq> 16
        \<and> doc_depth doc5 \<noteq> 32
      then (PSD_ERR_INVALID_HEADER, doc5, s7) else
    (case psd_stream_read_be16 s7 of
       (Inl status, s8) \<Rightarrow> (status, doc5, s8)
     | (Inr color_mode_raw, s8) \<Rightarrow>
         (PSD_OK, doc5 \<lparr> doc_color_mode := color_mode_raw \<rparr>, s8)))))))))"

section \<open>The text-layer index (psd\_text\_layer\_parse.c)\<close>

text \<open>
  \<^verbatim>\<open>psd_parse_tysh_payload\<close> ignores the status of its reads: a field whose read
  fails keeps the zero that \<^verbatim>\<open>memset\<close> put there.
\<close>

definition text_layer_zero :: psd_text_layer_t where
  "text_layer_zero =
    \<lparr> tl_layer_index = 0, tl_source = PSD_TEXT_SOURCE_UNKNOWN, tysh_version = 0, text_version = 0,
      text_desc_version = 0, warp_version = 0, warp_desc_version = 0,
      transform = \<lparr> xx = 0, xy = 0, yx = 0, yy = 0, tx = 0, ty = 0 \<rparr>,
      text_bounds = \<lparr> rect_left = 0, rect_top = 0, rect_right = 0, rect_bottom = 0 \<rparr>,
      raw_tysh = None, raw_tysh_len = 0, has_rendered_pixels = False \<rparr>"

definition read_be16_or :: "psd_stream \<Rightarrow> u16 \<Rightarrow> u16 \<times> psd_stream" where
  "read_be16_or stream old =
    (case psd_stream_read_be16 stream of
       (Inl status, stream') \<Rightarrow> (old, stream')
     | (Inr v, stream') \<Rightarrow> (v, stream'))"

definition read_be32_or :: "psd_stream \<Rightarrow> u32 \<Rightarrow> u32 \<times> psd_stream" where
  "read_be32_or stream old =
    (case psd_stream_read_be32 stream of
       (Inl status, stream') \<Rightarrow> (old, stream')
     | (Inr v, stream') \<Rightarrow> (v, stream'))"

definition read_be_double_or :: "psd_stream \<Rightarrow> u64 \<Rightarrow> u64 \<times> psd_stream" where
  "read_be_double_or stream old =
    (case psd_stream_read_be64 stream of
       (Inl status, stream') \<Rightarrow> (old, stream')
     | (Inr bits, stream') \<Rightarrow> (bits, stream'))"

definition layer_has_rendered_pixels :: "psd_layer_record_t \<Rightarrow> bool" where
  "layer_has_rendered_pixels layer =
    (channel_count layer > 0
     \<and> sint (bounds_right (bounds layer) - bounds_left (bounds layer)) > 0
     \<and> sint (bounds_bottom (bounds layer) - bounds_top (bounds layer)) > 0)"

text \<open>
  \<open>out_item\<close> is the caller's record as it is before the call; it is returned
  untouched when \<^verbatim>\<open>psd_stream_create_buffer\<close> refuses the empty payload.
\<close>

definition psd_parse_tysh_payload ::
  "u32 \<Rightarrow> psd_layer_record_t \<Rightarrow> u8 list \<Rightarrow> nat \<Rightarrow> psd_text_layer_t
     \<Rightarrow> psd_status \<times> psd_text_layer_t"
where
  "psd_parse_tysh_payload layer_idx layer payload payload_len out_item =
    (if payload_len = 0 then (PSD_ERR_OUT_OF_MEMORY, out_item)
     else
       let stream = \<lparr> buffer = take payload_len payload, position = 0 \<rparr>;
           (v_tysh, s1) = read_be16_or stream 0;
           (v_xx, s2) = read_be_double_or s1 0;
           (v_xy, s3) = read_be_double_or s2 0;
           (v_yx, s4) = read_be_double_or s3 0;
           (v_yy, s5) = read_be_double_or s4 0;
           (v_tx, s6) = read_be_double_or s5 0;
           (v_ty, s7) = read_be_double_or s6 0;
           (v_text, s8) = read_be16_or s7 0;
           (v_desc, s9) = read_be32_or s8 0;
           s10 = (if payload_len \<ge> 70 \<and> int payload_len - 32 > psd_stream_tell s9
                  then snd (psd_stream_skip s9 (nat (int payload_len - 32 - psd_stream_tell s9)))
                  else s9);
           (v_left, s11) = read_be_double_or s10 0;
           (v_top, s12) = read_be_double_or s11 0;
           (v_right, s13) = read_be_double_or s12 0;
           (v_bottom, s14) = read_be_double_or s13 0
       in (PSD_OK,
           text_layer_zero
             \<lparr> tl_layer_index := layer_idx, tl_source := PSD_TEXT_SOURCE_TYSH,
               tysh_version := v_tysh, text_version := v_text, text_desc_version := v_desc,
               transform := \<lparr> xx = v_xx, xy = v_xy, yx = v_yx, yy = v_yy,
                              tx = v_tx, ty = v_ty \<rparr>,
               text_bounds := \<lparr> rect_left = v_left, rect_top = v_top,
                                rect_right = v_right, rect_bottom = v_bottom \<rparr>,
               raw_tysh := Some (take payload_len payload),
               raw_tysh_len := of_nat payload_len,
               has_rendered_pixels := layer_has_rendered_pixels layer \<rparr>))"

text \<open>
  The scan of the tagged blocks of one layer. \<open>d\<close> is the layer's extra data,
  \<open>data\<close> the offset of the pointer \<^verbatim>\<open>data\<close> in it, \<open>items\<close> the text-layer
  table so far, \<open>uninit\<close> the content of the uninitialised local \<^verbatim>\<open>item\<close>.
  The result is \<open>None\<close> where the C loop has no defined result: with 8 to 11 bytes left
  it reads the length field past the end of the buffer, and a block whose 32-bit total
  \<open>12 + block_len\<close> wraps to 0 leaves the loop without progress.
\<close>

function text_blocks_loop ::
  "psd_text_layer_t \<Rightarrow> u8 list \<Rightarrow> psd_layer_record_t \<Rightarrow> u32 \<Rightarrow> nat \<Rightarrow> nat
     \<Rightarrow> psd_text_layer_t list \<Rightarrow> psd_text_layer_t list option"
where
  "text_blocks_loop uninit d layer i data remaining items =
    (if remaining \<ge> 8 then
       (if remaining < 12 then None
        else
          let block_len = unat (read_be_u32 d (data + 8));
              block_total = (12 + block_len) mod 2 ^ 32
                            + (if odd block_len then 1 else 0);
              payload = take block_len (drop (data + 12) d)
          in
           if block_len > remaining - 12 then Some items
           else if block_total > remaining then Some items
           else if block_total = 0 then None
           else if read_be_u32 d data \<noteq> 0x3842494D \<and> read_be_u32 d data \<noteq> 0x3842364D
             then text_blocks_loop uninit d layer i (data + block_total)
                    (remaining - block_total) items
           else if read_be_u32 d (data + 4) = 0x54795368 then
             text_blocks_loop uninit d layer i (data + block_total) (remaining - block_total)
               (items @
                 [case psd_parse_tysh_payload i layer payload block_len uninit of
                    (status, item) \<Rightarrow>
                      if status = PSD_OK then item
                      else item \<lparr> tl_layer_index := i, tl_source := PSD_TEXT_SOURCE_TYSH,
                                  raw_tysh := Some payload, raw_tysh_len := of_nat block_len,
                                  has_rendered_pixels := layer_has_rendered_pixels layer \<rparr>])
           else if read_be_u32 d (data + 4) = 0x74795368 then
             text_blocks_loop uninit d layer i (data + block_total) (remaining - block_total)
               (items @
                 [text_layer_zero
                    \<lparr> tl_layer_index := i, tl_source := PSD_TEXT_SOURCE_TYSH_LEGACY,
                      raw_tysh := Some payload, raw_tysh_len := of_nat block_len,
                      has_rendered_pixels := layer_has_rendered_pixels layer \<rparr>])
           else text_blocks_loop uninit d layer i (data + block_total)
                  (remaining - block_total) items)
     else Some items)"
  by pat_completeness auto
termination
  by (relation "measure (\<lambda>(u, d, layer, i, data, remaining, items). remaining)") auto

declare text_blocks_loop.simps [simp del]

text \<open>
  Skipping a region that starts with a 4-byte length (the mask data, then the blending
  ranges), and the Pascal name padded to a multiple of four; each maps the pair
  \<open>(data, remaining)\<close>.
\<close>

definition skip_length_region :: "u8 list \<Rightarrow> nat \<times> nat \<Rightarrow> nat \<times> nat" where
  "skip_length_region d dr =
    (case dr of (data, remaining) \<Rightarrow>
       if remaining \<ge> 4 then
         let region_len = unat (read_be_u32 d data) in
         if region_len > 0 \<and> region_len \<le> remaining - 4
           then (data + 4 + region_len, remaining - 4 - region_len)
         else (data + 4, remaining - 4)
       else (data, remaining))"

definition skip_layer_name :: "u8 list \<Rightarrow> nat \<times> nat \<Rightarrow> nat \<times> nat" where
  "skip_layer_name d dr =
    (case dr of (data, remaining) \<Rightarrow>
       if remaining \<ge> 1 then
         let name_len = unat (d ! data);
             name_total = (if (1 + name_len) mod 4 \<noteq> 0
                           then (1 + name_len) + (4 - (1 + name_len) mod 4)
                           else 1 + name_len)
         in if name_total \<le> remaining then (data + name_total, remaining - name_total)
            else (data, remaining)
       else (data, remaining))"

definition text_layers_of_layer ::
  "psd_text_layer_t \<Rightarrow> psd_layer_record_t \<Rightarrow> u32 \<Rightarrow> psd_text_layer_t list
     \<Rightarrow> psd_text_layer_t list option"
where
  "text_layers_of_layer uninit layer i items =
    (if \<not> has_text (features layer) \<or> additional_data layer = None
         \<or> additional_length layer < 12
       then Some items
     else
       (case skip_layer_name (the (additional_data layer))
               (skip_length_region (the (additional_data layer))
                 (skip_length_region (the (additional_data layer))
                   (0, unat (additional_length layer)))) of
          (data, remaining) \<Rightarrow>
            text_blocks_loop uninit (the (additional_data layer)) layer i data remaining items))"

text \<open>The loop of \<^verbatim>\<open>psd_parse_text_layers\<close> over the layers, from layer \<open>i\<close> on.\<close>

fun text_layers_loop ::
  "psd_text_layer_t \<Rightarrow> psd_layer_record_t list \<Rightarrow> nat \<Rightarrow> psd_text_layer_t list
     \<Rightarrow> psd_text_layer_t list option"
where
  "text_layers_loop uninit [] i items = Some items"
| "text_layers_loop uninit (layer # rest) i items =
    (case text_layers_of_layer uninit layer (of_nat i) items of
       None \<Rightarrow> None
     | Some items' \<Rightarrow> text_layers_loop uninit rest (i + 1) items')"

text \<open>
  \<^verbatim>\<open>psd_parse_text_layers\<close> returns \<^verbatim>\<open>PSD_OK\<close> whenever it returns; the result
  is the document with its new text-layer table.
\<close>

definition psd_parse_text_layers ::
  "psd_text_layer_t \<Rightarrow> psd_document \<Rightarrow> psd_document option"
where
  "psd_parse_text_layers uninit doc =
    (if layer_count doc \<le> 0 then Some doc
     else
       (case text_layers_loop uninit (doc_layers doc) 0 [] of
          None \<Rightarrow> None
        | Some items \<Rightarrow> Some (doc \<lparr> doc_text_layers := items \<rparr>)))"

section \<open>\<^verbatim>\<open>psd_parse_ex\<close> (psd\_parse.c)\<close>

text \<open>
  The parsers of the sections after the header are parameters. None of them assigns a
  header field of the document (\<^verbatim>\<open>is_psb\<close>, \<^verbatim>\<open>width\<close>, \<^verbatim>\<open>height\<close>,
  \<^verbatim>\<open>channels\<close>, \<^verbatim>\<open>depth\<close>, \<^verbatim>\<open>color_mode\<close> are written by
  \<^verbatim>\<open>psd_parse_header\<close> only), so each is a function from the stream and the document
  read so far to its status, the section it fills and the stream as it leaves it.
\<close>

record section_parsers =
  psd_parse_color_mode_data ::
    "psd_stream \<Rightarrow> psd_document \<Rightarrow> psd_status \<times> u8 list option \<times> psd_stream"
  psd_parse_resources ::
    "psd_stream \<Rightarrow> psd_document \<Rightarrow> psd_status \<times> psd_stream"
  psd_parse_layer_info ::
    "psd_stream \<Rightarrow> psd_document \<Rightarrow> psd_status \<times> (psd_layer_record_t list \<times> bool) \<times> psd_stream"
  psd_parse_composite_image ::
    "psd_stream \<Rightarrow> psd_document \<Rightarrow> psd_status \<times> psd_composite_image_t \<times> psd_stream"

text \<open>
  The result is the returned document pointer (\<open>None\<close> is \<^verbatim>\<open>NULL\<close>) and the value
  left in \<^verbatim>\<open>*out_status\<close>; the whole is \<open>None\<close> where the text-layer scan has no
  defined result. A failure of the composite section with end-of-stream, invalid-stream or
  unsupported-compression keeps the document, and \<^verbatim>\<open>*out_status\<close> stays
  \<^verbatim>\<open>PSD_OK\<close>.
\<close>

definition psd_parse_ex ::
  "section_parsers \<Rightarrow> psd_text_layer_t \<Rightarrow> psd_stream option
     \<Rightarrow> (psd_document option \<times> psd_status) option"
where
  "psd_parse_ex sp uninit stream_ptr =
    (case stream_ptr of
       None \<Rightarrow> Some (None, PSD_ERR_NULL_POINTER)
     | Some stream \<Rightarrow>
    (case psd_parse_header stream document_init of (status, doc1, s1) \<Rightarrow>
    if status \<noteq> PSD_OK then Some (None, status) else
    (case psd_parse_color_mode_data sp s1 doc1 of (status, cd, s2) \<Rightarrow>
    if status \<noteq> PSD_OK then Some (None, status) else
    let doc2 = doc1 \<lparr> doc_color_data := cd \<rparr> in
    (case psd_parse_resources sp s2 doc2 of (status, s3) \<Rightarrow>
    if status \<noteq> PSD_OK then Some (None, status) else
    (case psd_parse_layer_info sp s3 doc2 of (status, (ls, transparency), s4) \<Rightarrow>
    if status \<noteq> PSD_OK then Some (None, status) else
    let doc3 = doc2 \<lparr> doc_layers := ls, doc_has_transparency_layer := transparency \<rparr> in
    (case psd_parse_text_layers uninit doc3 of
       None \<Rightarrow> None
     | Some doc4 \<Rightarrow>
    (case psd_parse_composite_image sp s4 doc4 of (status, c, s5) \<Rightarrow>
    if status \<noteq> PSD_OK
       \<and> status \<noteq> PSD_ERR_STREAM_EOF \<and> status \<noteq> PSD_ERR_STREAM_INVALID
       \<and> status \<noteq> PSD_ERR_UNSUPPORTED_COMPRESSION
      then Some (None, status)
    else Some (Some (doc4 \<lparr> doc_composite := c \<rparr>), PSD_OK))))))))"

definition psd_parse ::
  "section_parsers \<Rightarrow> psd_text_layer_t \<Rightarrow> psd_stream option \<Rightarrow> psd_document option option"
where
  "psd_parse sp uninit stream_ptr = map_option fst (psd_parse_ex sp uninit stream_ptr)"

text \<open>
  The header invariant of the specification, and the validity of the 26 header bytes at
  offset \<open>p\<close> of a buffer.
\<close>

definition header_invariant :: "psd_document \<Rightarrow> bool" where
  "header_invariant doc =
    (1 \<le> unat (doc_channels doc) \<and> unat (doc_channels doc) \<le> 56
     \<and> doc_depth doc \<in> {1, 8, 16, 32}
     \<and> 1 \<le> unat (doc_width doc) \<and> 1 \<le> unat (doc_height doc)
     \<and> unat (doc_width doc) \<le> (if doc_is_psb doc then 300000 else 30000)
     \<and> unat (doc_height doc) \<le> (if doc_is_psb doc then 300000 else 30000))"

definition header_bytes_valid :: "u8 list \<Rightarrow> nat \<Rightarrow> bool" where
  "header_bytes_valid b p =
    (p + 26 \<le> length b
     \<and> read_be_u32 b p = 0x38425053
     \<and> read_be_u16 b (p + 4) \<in> {1, 2}
     \<and> 1 \<le> unat (read_be_u16 b (p + 12)) \<and> unat (read_be_u16 b (p + 12)) \<le> 56
     \<and> 1 \<le> unat (read_be_u32 b (p + 14)) \<and> 1 \<le> unat (read_be_u32 b (p + 18))
     \<and> unat (read_be_u32 b (p + 14))
          \<le> (if read_be_u16 b (p + 4) = 2 then 300000 else 30000)
     \<and> unat (read_be_u32 b (p + 18))
          \<le> (if read_be_u16 b (p + 4) = 2 then 300000 else 30000)
     \<and> read_be_u16 b (p + 22) \<in> {1, 8, 16, 32})"

subsection \<open>The section parsers, up to the empty section\<close>

text \<open>
  The opening of each section parser of psd\_parse.c: the read of the section length (of
  the compression kind, for the composite image) and the return for an empty section.
  What a parser does with a section that is not empty is the parameter \<open>rest\<close>, except
  for the color mode data, which are only copied. Allocation is taken to succeed.
  \<^verbatim>\<open>psd_parse_composite_image\<close> returns \<^verbatim>\<open>PSD_OK\<close> with no composite when not even
  the compression kind can be read.
\<close>

definition psd_parse_color_mode_data_src ::
  "psd_stream \<Rightarrow> psd_document \<Rightarrow> psd_status \<times> u8 list option \<times> psd_stream"
where
  "psd_parse_color_mode_data_src stream doc =
    (case psd_stream_read_be32 stream of
       (Inl status, s1) \<Rightarrow> (status, None, s1)
     | (Inr data_length32, s1) \<Rightarrow>
        if data_length32 = 0 then (PSD_OK, None, s1)
        else
          (case psd_stream_read_exact s1 (unat data_length32) of
             (Inl status, s2) \<Rightarrow> (status, None, s2)
           | (Inr b, s2) \<Rightarrow> (PSD_OK, Some b, s2)))"

definition psd_parse_resources_src ::
  "(u32 \<Rightarrow> psd_stream \<Rightarrow> psd_document \<Rightarrow> psd_status \<times> psd_stream)
     \<Rightarrow> psd_stream \<Rightarrow> psd_document \<Rightarrow> psd_status \<times> psd_stream"
where
  "psd_parse_resources_src rest stream doc =
    (case psd_stream_read_be32 stream of
       (Inl status, s1) \<Rightarrow> (status, s1)
     | (Inr section_length32, s1) \<Rightarrow>
        if section_length32 = 0 then (PSD_OK, s1) else rest section_length32 s1 doc)"

definition psd_parse_layer_info_src ::
  "(int \<Rightarrow> u64 \<Rightarrow> psd_stream \<Rightarrow> psd_document
      \<Rightarrow> psd_status \<times> (psd_layer_record_t list \<times> bool) \<times> psd_stream)
     \<Rightarrow> psd_stream \<Rightarrow> psd_document
     \<Rightarrow> psd_status \<times> (psd_layer_record_t list \<times> bool) \<times> psd_stream"
where
  "psd_parse_layer_info_src rest stream doc =
    (let section_len_pos = psd_stream_tell stream in
     case psd_stream_read_length stream (doc_is_psb doc) of
       (Inl status, s1) \<Rightarrow> (status, ([], False), s1)
     | (Inr section_length, s1) \<Rightarrow>
        if section_length = 0 then (PSD_OK, ([], False), s1)
        else rest section_len_pos section_length s1 doc)"

definition psd_parse_composite_image_src ::
  "(u16 \<Rightarrow> psd_stream \<Rightarrow> psd_document \<Rightarrow> psd_status \<times> psd_composite_image_t \<times> psd_stream)
     \<Rightarrow> psd_stream \<Rightarrow> psd_document \<Rightarrow> psd_status \<times> psd_composite_image_t \<times> psd_stream"
where
  "psd_parse_composite_image_src rest stream doc =
    (case psd_stream_read_be16 stream of
       (Inl status, s1) \<Rightarrow>
         (PSD_OK, \<lparr> composite_data = None, composite_data_length = 0,
                    composite_compression = 0 \<rparr>, s1)
     | (Inr compression_v, s1) \<Rightarrow>
        if compression_v > 3 then (PSD_ERR_UNSUPPORTED_COMPRESSION, doc_composite doc, s1)
        else rest compression_v s1 doc)"

definition source_parsers ::
  "(u32 \<Rightarrow> psd_stream \<Rightarrow> psd_document \<Rightarrow> psd_status \<times> psd_stream)
     \<Rightarrow> (int \<Rightarrow> u64 \<Rightarrow> psd_stream \<Rightarrow> psd_document
           \<Rightarrow> psd_status \<times> (psd_layer_record_t list \<times> bool) \<times> psd_stream)
     \<Rightarrow> (u16 \<Rightarrow> psd_stream \<Rightarrow> psd_document
           \<Rightarrow> psd_status \<times> psd_composite_image_t \<times> psd_stream)
     \<Rightarrow> section_parsers"
where
  "source_parsers rest_resources rest_layer_info rest_composite =
    \<lparr> psd_parse_color_mode_data = psd_parse_color_mode_data_src,
      psd_parse_resources = psd_parse_resources_src rest_resources,
      psd_parse_layer_info = psd_parse_layer_info_src rest_layer_info,
      psd_parse_composite_image = psd_parse_composite_image_src rest_composite \<rparr>"

section \<open>Channel image data of the layers (psd\_parse.c, \<^verbatim>\<open>psd_parse_layer_info\<close>)\<close>

text \<open>
  The second pass of \<^verbatim>\<open>psd_parse_layer_info\<close>, from
  \<^verbatim>\<open>channel_data_start = psd_stream_tell(stream)\<close> to the end of the loops over the
  layers and their channels; the layer records are those the first pass has read. The two
  sums are \<^verbatim>\<open>uint64_t\<close> sums and wrap.
\<close>

definition sum_channel_lengths :: "psd_layer_record_t list \<Rightarrow> u64" where
  "sum_channel_lengths ls = sum_list (map compressed_length (concat (map channels ls)))"

definition total_channels :: "psd_layer_record_t list \<Rightarrow> u64" where
  "total_channels ls = sum_list (map (\<lambda>layer. of_nat (channel_count layer)) ls)"

text \<open>
  The body of the inner loop: the compression kind, then the payload. The payload is read
  with \<^verbatim>\<open>psd_stream_read\<close>, and the number of bytes it returns is compared with
  \<^verbatim>\<open>(int64_t)data_length\<close>.
\<close>

definition read_channel_image ::
  "bool \<Rightarrow> psd_stream \<Rightarrow> psd_layer_channel_data_t
     \<Rightarrow> (psd_status + psd_layer_channel_data_t) \<times> psd_stream"
where
  "read_channel_image lengths_exclude_compression stream channel =
    (case psd_stream_read_be16 stream of
       (Inl status, s1) \<Rightarrow> (Inl status, s1)
     | (Inr compression_v, s1) \<Rightarrow>
        if compression_v > 3 then (Inl PSD_ERR_CORRUPT_DATA, s1)
        else
          let channel1 = channel \<lparr> compression := ucast compression_v \<rparr> in
          if lengths_exclude_compression then
            (case psd_stream_read s1 (unat (compressed_length channel1)) of
               (bytes, s2) \<Rightarrow>
                 if int (length bytes) \<noteq> sint (compressed_length channel1)
                   then (Inl PSD_ERR_STREAM_EOF, s2)
                 else (Inr (channel1 \<lparr> compressed_data := Some bytes \<rparr>), s2))
          else if compressed_length channel1 < 2 then (Inl PSD_ERR_CORRUPT_DATA, s1)
          else
            let channel2 = channel1 \<lparr> compressed_length := compressed_length channel1 - 2 \<rparr> in
            (case psd_stream_read s1 (unat (compressed_length channel2)) of
               (bytes, s2) \<Rightarrow>
                 if int (length bytes) \<noteq> sint (compressed_length channel2)
                   then (Inl PSD_ERR_STREAM_EOF, s2)
                 else (Inr (channel2 \<lparr> compressed_data := Some bytes \<rparr>), s2)))"

fun read_layer_channels ::
  "bool \<Rightarrow> psd_stream \<Rightarrow> psd_layer_channel_data_t list
     \<Rightarrow> (psd_status + psd_layer_channel_data_t list) \<times> psd_stream"
where
  "read_layer_channels ex stream [] = (Inr [], stream)"
| "read_layer_channels ex stream (channel # rest) =
    (case read_channel_image ex stream channel of
       (Inl status, s1) \<Rightarrow> (Inl status, s1)
     | (Inr channel', s1) \<Rightarrow>
        (case read_layer_channels ex s1 rest of
           (Inl status, s2) \<Rightarrow> (Inl status, s2)
         | (Inr rest', s2) \<Rightarrow> (Inr (channel' # rest'), s2)))"

fun read_layers_channels ::
  "bool \<Rightarrow> psd_stream \<Rightarrow> psd_layer_record_t list
     \<Rightarrow> (psd_status + psd_layer_record_t list) \<times> psd_stream"
where
  "read_layers_channels ex stream [] = (Inr [], stream)"
| "read_layers_channels ex stream (layer # rest) =
    (case read_layer_channels ex stream (channels layer) of
       (Inl status, s1) \<Rightarrow> (Inl status, s1)
     | (Inr channels', s1) \<Rightarrow>
        (case read_layers_channels ex s1 rest of
           (Inl status, s2) \<Rightarrow> (Inl status, s2)
         | (Inr rest', s2) \<Rightarrow> (Inr (layer \<lparr> channels := channels' \<rparr> # rest'), s2)))"

definition lengths_exclude_compression :: "psd_stream \<Rightarrow> int \<Rightarrow> psd_layer_record_t list \<Rightarrow> bool"
where
  "lengths_exclude_compression stream layer_info_end ls =
    (sum_channel_lengths ls + 2 * total_channels ls
       = word_of_int (layer_info_end - psd_stream_tell stream))"

definition psd_read_channel_image_data ::
  "psd_stream \<Rightarrow> int \<Rightarrow> psd_layer_record_t list
     \<Rightarrow> (psd_status + psd_layer_record_t list) \<times> psd_stream"
where
  "psd_read_channel_image_data stream layer_info_end ls =
    (if layer_info_end - psd_stream_tell stream < 0 then (Inl PSD_ERR_CORRUPT_DATA, stream)
     else read_layers_channels (lengths_exclude_compression stream layer_info_end ls) stream ls)"

text \<open>
  What the specification says of one channel: \<open>c\<close> is the channel as the layer record
  gave it, \<open>c'\<close> the channel after the pass, \<open>ex\<close> the outcome of the byte accounting.
\<close>

definition channel_payload_only ::
  "bool \<Rightarrow> psd_layer_channel_data_t \<Rightarrow> psd_layer_channel_data_t \<Rightarrow> bool"
where
  "channel_payload_only ex c c' =
    (compressed_length c' = (if ex then compressed_length c else compressed_length c - 2)
     \<and> (ex \<or> 2 \<le> compressed_length c)
     \<and> (\<exists>bytes. compressed_data c' = Some bytes \<and> length bytes = unat (compressed_length c'))
     \<and> channel_id c' = channel_id c
     \<and> compression c' \<le> 3)"

text \<open>
  The channels \<open>cs\<close> lie in the buffer \<open>b\<close> one after another from offset \<open>p\<close>:
  for each a 2-byte compression kind, then exactly the payload bytes that the channel holds.
  \<open>channels_span\<close> is the number of bytes they take.
\<close>

fun channels_at :: "u8 list \<Rightarrow> nat \<Rightarrow> psd_layer_channel_data_t list \<Rightarrow> bool" where
  "channels_at b p [] = True"
| "channels_at b p (c # cs) =
    (compression c = ucast (read_be_u16 b p)
     \<and> compressed_data c = Some (take (unat (compressed_length c)) (drop (p + 2) b))
     \<and> p + 2 + unat (compressed_length c) \<le> length b
     \<and> channels_at b (p + 2 + unat (compressed_length c)) cs)"

definition channels_span :: "psd_layer_channel_data_t list \<Rightarrow> nat" where
  "channels_span cs = sum_list (map (\<lambda>c. 2 + unat (compressed_length c)) cs)"

text \<open>
  When the pass can read the channels \<open>cs\<close> from offset \<open>p\<close> of the buffer \<open>b\<close>: each
  channel finds its 2-byte compression kind, of value at most 3, and then its payload,
  of the stored length (or of the stored length less 2, which then must be at least 2),
  inside the buffer. The payload length is compared as an \<^verbatim>\<open>int64_t\<close>, so it is
  below \<open>2 ^ 63\<close>.
\<close>

fun channels_readable :: "bool \<Rightarrow> u8 list \<Rightarrow> nat \<Rightarrow> psd_layer_channel_data_t list \<Rightarrow> bool"
where
  "channels_readable ex b p [] = True"
| "channels_readable ex b p (c # cs) =
    (let n = unat (if ex then compressed_length c else compressed_length c - 2) in
     p + 2 \<le> length b \<and> read_be_u16 b p \<le> 3 \<and> (ex \<or> 2 \<le> compressed_length c)
     \<and> n < 2 ^ 63 \<and> p + 2 + n \<le> length b
     \<and> channels_readable ex b (p + 2 + n) cs)"

section \<open>Rendering to RGBA8 (psd\_render.c)\<close>

definition PSD_COLOR_BITMAP :: u16 where "PSD_COLOR_BITMAP = 0"
definition PSD_COLOR_GRAYSCALE :: u16 where "PSD_COLOR_GRAYSCALE = 1"
definition PSD_COLOR_INDEXED :: u16 where "PSD_COLOR_INDEXED = 2"
definition PSD_COLOR_RGB :: u16 where "PSD_COLOR_RGB = 3"
definition PSD_COLOR_CMYK :: u16 where "PSD_COLOR_CMYK = 4"
definition PSD_COLOR_DUOTONE :: u16 where "PSD_COLOR_DUOTONE = 8"
definition PSD_COLOR_LAB :: u16 where "PSD_COLOR_LAB = 9"

definition bytes_per_sample :: "u16 \<Rightarrow> nat" where
  "bytes_per_sample depth_bits =
    (if depth_bits = 8 then 1 else if depth_bits = 16 then 2 else if depth_bits = 32 then 4
     else if depth_bits = 1 then 0 else 1)"

text \<open>
  A pointer into a plane is the list of the bytes from it on, so \<open>p ! 0\<close> is
  \<^verbatim>\<open>p[0]\<close>.
\<close>

definition sample_to_u8 :: "u8 list \<Rightarrow> u16 \<Rightarrow> u8" where
  "sample_to_u8 p depth_bits =
    (if depth_bits = 8 then p ! 0 else if depth_bits = 16 then p ! 0
     else if depth_bits = 32 then p ! 0 else p ! 0)"

text \<open>
  The pointer \<open>p\<^sub>k\<close> of the pixel loop: \<open>planes[k] + idx * bps\<close> when plane \<open>k\<close> is
  counted and present. Plane 0 is not checked against \<open>plane_count\<close>.
\<close>

definition plane_ptr :: "u8 list option list \<Rightarrow> nat \<Rightarrow> nat \<Rightarrow> nat \<Rightarrow> u8 list option" where
  "plane_ptr planes plane_count k off =
    (if (k = 0 \<or> plane_count > k) \<and> planes ! k \<noteq> None
       then Some (drop off (the (planes ! k)))
     else None)"

text \<open>
  The conversion from Lab to sRGB is floating-point arithmetic; it is the parameter
  \<open>lab\<close>, which maps the depth being 8 and the three integer samples read from the
  planes to the three bytes \<^verbatim>\<open>lab_d50_to_srgb_u8\<close> stores.
\<close>

type_synonym lab_t = "bool \<Rightarrow> nat \<Rightarrow> nat \<Rightarrow> nat \<Rightarrow> u8 \<times> u8 \<times> u8"

text \<open>The body of the pixel loop: the pixel \<open>(r, g, b, a)\<close> at \<open>(x, y)\<close>, or the error.\<close>

definition render_pixel ::
  "lab_t \<Rightarrow> u16 \<Rightarrow> u16 \<Rightarrow> nat \<Rightarrow> u8 list option list \<Rightarrow> nat \<Rightarrow> u8 list option \<Rightarrow> nat
     \<Rightarrow> nat \<Rightarrow> nat \<Rightarrow> psd_status + (u8 \<times> u8 \<times> u8 \<times> u8)"
where
  "render_pixel lab mode depth_bits w planes plane_count color_mode_data color_mode_data_len
      x y =
    (if depth_bits = 1 then
       (if planes ! 0 = None then Inl PSD_ERR_CORRUPT_DATA
        else
          let off = y * ((w + 7) div 8) + x div 8;
              v = (if bit (the (planes ! 0) ! off) (7 - x mod 8) then 255 else 0)
          in Inr (v, v, v, 255))
     else
       let idx = y * w + x;
           bps = bytes_per_sample depth_bits;
           p0 = plane_ptr planes plane_count 0 (idx * bps);
           p1 = plane_ptr planes plane_count 1 (idx * bps);
           p2 = plane_ptr planes plane_count 2 (idx * bps);
           p3 = plane_ptr planes plane_count 3 (idx * bps);
           p4 = plane_ptr planes plane_count 4 (idx * bps);
           s = (\<lambda>p dflt. case p of None \<Rightarrow> dflt | Some q \<Rightarrow> sample_to_u8 q depth_bits)
       in
        if mode = PSD_COLOR_RGB then
          Inr (s p0 0, s p1 (s p0 0), s p2 (s p0 0), s p3 255)
        else if mode = PSD_COLOR_GRAYSCALE \<or> mode = PSD_COLOR_DUOTONE then
          Inr (s p0 0, s p0 0, s p0 0, s p1 255)
        else if mode = PSD_COLOR_INDEXED then
          (if color_mode_data \<noteq> None \<and> color_mode_data_len \<ge> 768
             then Inr (the color_mode_data ! unat (s p0 0),
                       the color_mode_data ! (256 + unat (s p0 0)),
                       the color_mode_data ! (512 + unat (s p0 0)), s p1 255)
           else Inr (s p0 0, s p0 0, s p0 0, s p1 255))
        else if mode = PSD_COLOR_CMYK then
          Inr (of_nat (255 - min 255 (unat (s p0 0) + unat (s p3 0))),
               of_nat (255 - min 255 (unat (s p1 0) + unat (s p3 0))),
               of_nat (255 - min 255 (unat (s p2 0) + unat (s p3 0))), s p4 255)
        else if mode = PSD_COLOR_LAB then
          (if p0 = None \<or> p1 = None \<or> p2 = None then Inl PSD_ERR_CORRUPT_DATA
           else
             (case (if depth_bits = 8
                    then lab True (unat (the p0 ! 0)) (unat (the p1 ! 0)) (unat (the p2 ! 0))
                    else lab False (unat (read_be_u16 (the p0) 0))
                           (unat (read_be_u16 (the p1) 0)) (unat (read_be_u16 (the p2) 0))) of
                (r, g, b) \<Rightarrow> Inr (r, g, b, s p3 255)))
        else Inl PSD_ERR_UNSUPPORTED_COLOR_MODE)"

text \<open>
  The two loops over \<open>x\<close> and \<open>y\<close>. An error leaves the loops at once, with the
  buffer as written so far; \<open>pix\<close> is the body above.
\<close>

function render_row ::
  "(nat \<Rightarrow> nat \<Rightarrow> psd_status + (u8 \<times> u8 \<times> u8 \<times> u8)) \<Rightarrow> nat \<Rightarrow> nat \<Rightarrow> nat \<Rightarrow> u8 list
     \<Rightarrow> psd_status \<times> u8 list"
where
  "render_row pix w y x out_rgba =
    (if x < w then
       (case pix x y of
          Inl status \<Rightarrow> (status, out_rgba)
        | Inr (r, g, b, a) \<Rightarrow>
            render_row pix w y (x + 1)
              (out_rgba [(y * w + x) * 4 := r, (y * w + x) * 4 + 1 := g,
                         (y * w + x) * 4 + 2 := b, (y * w + x) * 4 + 3 := a]))
     else (PSD_OK, out_rgba))"
  by pat_completeness auto
termination
  by (relation "measure (\<lambda>(pix, w, y, x, out_rgba). w - x)") auto

declare render_row.simps [simp del]

function render_rows ::
  "(nat \<Rightarrow> nat \<Rightarrow> psd_status + (u8 \<times> u8 \<times> u8 \<times> u8)) \<Rightarrow> nat \<Rightarrow> nat \<Rightarrow> nat \<Rightarrow> u8 list
     \<Rightarrow> psd_status \<times> u8 list"
where
  "render_rows pix w h y out_rgba =
    (if y < h then
       (case render_row pix w y 0 out_rgba of
          (status, out_rgba') \<Rightarrow>
            if status \<noteq> PSD_OK then (status, out_rgba')
            else render_rows pix w h (y + 1) out_rgba')
     else (PSD_OK, out_rgba))"
  by pat_completeness auto
termination
  by (relation "measure (\<lambda>(pix, w, h, y, out_rgba). h - y)") auto

declare render_rows.simps [simp del]

text \<open>
  \<^verbatim>\<open>render_planar_to_rgba8\<close>. The result is the status, the value stored through
  \<^verbatim>\<open>out_required_size\<close> (\<open>None\<close> when nothing is stored) and the output buffer.
  \<open>required64\<close> is a \<^verbatim>\<open>uint64_t\<close> product.
\<close>

definition render_planar_to_rgba8 ::
  "lab_t \<Rightarrow> u16 \<Rightarrow> u16 \<Rightarrow> u32 \<Rightarrow> u32 \<Rightarrow> u8 list option list \<Rightarrow> nat \<Rightarrow> u8 list option \<Rightarrow> nat
     \<Rightarrow> u8 list option \<Rightarrow> nat \<Rightarrow> psd_status \<times> nat option \<times> u8 list option"
where
  "render_planar_to_rgba8 lab mode depth_bits w h planes plane_count color_mode_data
      color_mode_data_len out_rgba out_rgba_size =
    (let required = (unat w * unat h * 4) mod 2 ^ 64 in
     if required > SIZE_MAX then (PSD_ERR_OUT_OF_RANGE, None, out_rgba)
     else if out_rgba = None \<or> out_rgba_size < required
       then (PSD_ERR_BUFFER_TOO_SMALL, Some required, out_rgba)
     else if w = 0 \<or> h = 0 then (PSD_OK, Some required, out_rgba)
     else if \<not> (depth_bits = 1 \<or> depth_bits = 8 \<or> depth_bits = 16)
       then (PSD_ERR_UNSUPPORTED_FEATURE, Some required, out_rgba)
     else
       (case render_rows
               (render_pixel lab mode depth_bits (unat w) planes plane_count color_mode_data
                  color_mode_data_len)
               (unat w) (unat h) 0 (the out_rgba) of
          (status, out_rgba') \<Rightarrow> (status, Some required, Some out_rgba')))"

subsection \<open>Rendering the composite image\<close>

definition color_data_length :: "psd_document \<Rightarrow> nat" where
  "color_data_length doc = (case doc_color_data doc of None \<Rightarrow> 0 | Some d \<Rightarrow> length d)"


subsection \<open>Rendering one layer\<close>

definition psd_document_get_layer_bounds ::
  "psd_document \<Rightarrow> i32 \<Rightarrow> psd_status + psd_layer_bounds_t"
where
  "psd_document_get_layer_bounds doc idx =
    (if sint idx < 0 \<or> sint idx \<ge> layer_count doc then Inl PSD_ERR_OUT_OF_RANGE
     else Inr (bounds (doc_layers doc ! nat (sint idx))))"

definition psd_document_get_layer_channel_count :: "psd_document \<Rightarrow> i32 \<Rightarrow> psd_status + nat"
where
  "psd_document_get_layer_channel_count doc idx =
    (if sint idx < 0 \<or> sint idx \<ge> layer_count doc then Inl PSD_ERR_OUT_OF_RANGE
     else Inr (channel_count (doc_layers doc ! nat (sint idx))))"

text \<open>
  \<^verbatim>\<open>psd_document_get_layer_channel_data\<close> decodes the channel on first use and
  stores the result in the document. The outputs are the channel id, the data pointer,
  the length and the compression as the function leaves them.
\<close>

definition set_channel ::
  "psd_document \<Rightarrow> nat \<Rightarrow> nat \<Rightarrow> psd_layer_channel_data_t \<Rightarrow> psd_document"
where
  "set_channel doc li ci channel =
    doc \<lparr> doc_layers := (doc_layers doc)
            [li := (doc_layers doc ! li)
                     \<lparr> channels := (channels (doc_layers doc ! li)) [ci := channel] \<rparr>] \<rparr>"

definition psd_document_get_layer_channel_data ::
  "inflate_t \<Rightarrow> psd_document \<Rightarrow> i32 \<Rightarrow> nat
     \<Rightarrow> psd_status \<times> (16 word \<times> u8 list option \<times> u64 \<times> u32) \<times> psd_document"
where
  "psd_document_get_layer_channel_data inflate doc idx channel_index =
    (if sint idx < 0 \<or> sint idx \<ge> layer_count doc
       then (PSD_ERR_OUT_OF_RANGE, (0, None, 0, 0), doc)
     else
       let layer = doc_layers doc ! nat (sint idx) in
       if channel_index \<ge> channel_count layer
         then (PSD_ERR_OUT_OF_RANGE, (0, None, 0, 0), doc)
       else
         let channel = channels layer ! channel_index;
             layer_width = bounds_right (bounds layer) - bounds_left (bounds layer);
             layer_height = bounds_bottom (bounds layer) - bounds_top (bounds layer)
         in
          if layer_width = 0 \<or> layer_height = 0 then (PSD_OK, (0, None, 0, 0), doc)
          else
            (case (if \<not> is_decoded channel
                   then psd_layer_channel_decode inflate channel layer_width layer_height
                          (if channel_id channel = -2 then 8
                           else if channel_id channel = -3 then 8 else doc_depth doc)
                   else (PSD_OK, channel)) of
               (status, channel') \<Rightarrow>
                 let doc' = set_channel doc (nat (sint idx)) channel_index channel' in
                 if status \<noteq> PSD_OK \<and> status \<noteq> PSD_ERR_UNSUPPORTED_COMPRESSION
                   then (status, (0, None, 0, 0), doc')
                 else if decoded_data channel' = None \<and> compressed_data channel' = None
                   then (PSD_ERR_CORRUPT_DATA, (channel_id channel', None, 0, 0), doc')
                 else
                   (if compression channel' > 3 then PSD_ERR_CORRUPT_DATA else PSD_OK,
                    (channel_id channel',
                     (if decoded_data channel' \<noteq> None then decoded_data channel'
                      else compressed_data channel'),
                     (if decoded_data channel' \<noteq> None then decoded_length channel'
                      else compressed_length channel'),
                     ucast (compression channel')),
                    doc')))"

text \<open>
  The loop of \<^verbatim>\<open>psd_document_render_layer_rgba8\<close> that collects the plane pointers
  by channel id, from channel \<open>i\<close> on: ids 0 to 3 fill their slot, id \<open>-1\<close> fills slot 4.
\<close>

function collect_planes ::
  "inflate_t \<Rightarrow> psd_document \<Rightarrow> i32 \<Rightarrow> nat \<Rightarrow> nat \<Rightarrow> u8 list option list
     \<Rightarrow> u8 list option list \<times> psd_document"
where
  "collect_planes inflate doc idx n i planes =
    (if i < n then
       (case psd_document_get_layer_channel_data inflate doc idx i of
          (st, (cid, data, len, cmpr), doc') \<Rightarrow>
            if st \<noteq> PSD_OK then collect_planes inflate doc' idx n (i + 1) planes
            else if data = None \<or> len = 0 then collect_planes inflate doc' idx n (i + 1) planes
            else if 0 \<le> sint cid \<and> sint cid < 4
              then collect_planes inflate doc' idx n (i + 1) (planes [nat (sint cid) := data])
            else if sint cid = -1
              then collect_planes inflate doc' idx n (i + 1) (planes [4 := data])
            else collect_planes inflate doc' idx n (i + 1) planes)
     else (planes, doc))"
  by pat_completeness auto
termination
  by (relation "measure (\<lambda>(inflate, doc, idx, n, i, planes). n - i)") auto

declare collect_planes.simps [simp del]

text \<open>The plane order that \<^verbatim>\<open>render_planar_to_rgba8\<close> expects, and the plane count.\<close>

definition ordered_planes ::
  "u16 \<Rightarrow> u8 list option list \<Rightarrow> (u8 list option list \<times> nat) option"
where
  "ordered_planes mode planes =
    (if mode = PSD_COLOR_RGB \<or> mode = PSD_COLOR_LAB then
       Some ([planes ! 0, planes ! 1, planes ! 2, planes ! 4, None],
             if planes ! 4 \<noteq> None then 4 else 3)
     else if mode = PSD_COLOR_GRAYSCALE \<or> mode = PSD_COLOR_DUOTONE \<or> mode = PSD_COLOR_INDEXED
       then Some ([planes ! 0, planes ! 4, None, None, None],
                  if planes ! 4 \<noteq> None then 2 else 1)
     else if mode = PSD_COLOR_CMYK then
       Some ([planes ! 0, planes ! 1, planes ! 2, planes ! 3, planes ! 4],
             if planes ! 4 \<noteq> None then 5 else 4)
     else None)"

text \<open>
  The result is the status, the value stored through \<^verbatim>\<open>out_required_size\<close>, the
  output buffer and the document with the channels decoded on the way.
\<close>

definition psd_document_render_layer_rgba8 ::
  "inflate_t \<Rightarrow> lab_t \<Rightarrow> psd_document \<Rightarrow> i32 \<Rightarrow> u8 list option \<Rightarrow> nat
     \<Rightarrow> psd_status \<times> nat option \<times> u8 list option \<times> psd_document"
where
  "psd_document_render_layer_rgba8 inflate lab doc idx out_rgba out_rgba_size =
    (case psd_document_get_layer_bounds doc idx of
       Inl st \<Rightarrow> (st, None, out_rgba, doc)
     | Inr b \<Rightarrow>
        let w = (if sint (bounds_right b) > sint (bounds_left b)
                 then bounds_right b - bounds_left b else 0);
            h = (if sint (bounds_bottom b) > sint (bounds_top b)
                 then bounds_bottom b - bounds_top b else 0);
            required = (unat w * unat h * 4) mod 2 ^ 64
        in
         if required > SIZE_MAX then (PSD_ERR_OUT_OF_RANGE, None, out_rgba, doc)
         else if out_rgba = None \<or> out_rgba_size < required
           then (PSD_ERR_BUFFER_TOO_SMALL, Some required, out_rgba, doc)
         else if w = 0 \<or> h = 0 then (PSD_OK, Some required, out_rgba, doc)
         else
           (case psd_document_get_layer_channel_count doc idx of
              Inl st \<Rightarrow> (st, Some required, out_rgba, doc)
            | Inr n \<Rightarrow>
               (case collect_planes inflate doc idx n 0 [None, None, None, None, None] of
                  (planes, doc') \<Rightarrow>
                    (case ordered_planes (doc_color_mode doc) planes of
                       None \<Rightarrow> (PSD_ERR_UNSUPPORTED_COLOR_MODE, Some required, out_rgba, doc')
                     | Some (ordered, plane_count) \<Rightarrow>
                         if doc_depth doc \<noteq> 1 \<and> bytes_per_sample (doc_depth doc) = 0
                           then (PSD_ERR_INVALID_ARGUMENT, Some required, out_rgba, doc')
                         else
                           (case render_planar_to_rgba8 lab (doc_color_mode doc)
                                   (doc_depth doc) w h ordered plane_count (doc_color_data doc)
                                   (color_data_length doc) out_rgba out_rgba_size of
                              (st, req, out_rgba') \<Rightarrow>
                                (st, (case req of None \<Rightarrow> Some required | Some r \<Rightarrow> Some r),
                                 out_rgba', doc'))))))"


section \<open>Properties\<close>

text \<open>
  C5, as stated, fails: the header byte \<open>81\<close> is 129, so it replicates the next byte
  \<open>257 - 129 = 128\<close> times, which overruns the expected width 7. Both single-row
  decoders reject the row \<open>02 AA BB CC 81 DD 00 EE\<close> as corrupt data.
\<close>

theorem packbits_example_row_rejected:
  "psd_packbits_decode_row [0x02, 0xAA, 0xBB, 0xCC, 0x81, 0xDD, 0x00, 0xEE] 7
     \<noteq> Inr [0xAA, 0xBB, 0xCC, 0xDD, 0xDD, 0xDD, 0xEE]
   \<and> psd_packbits_decode_row [0x02, 0xAA, 0xBB, 0xCC, 0x81, 0xDD, 0x00, 0xEE] 7
     = Inl PSD_ERR_CORRUPT_DATA
   \<and> psd_rle_decode_scanline [0x02, 0xAA, 0xBB, 0xCC, 0x81, 0xDD, 0x00, 0xEE] 7
     = Inl PSD_ERR_CORRUPT_DATA"
  by (simp add: psd_packbits_decode_row_def psd_rle_decode_scanline_def
        packbits_loop.simps rle_scanline_loop.simps)

text \<open>
  C5, amended. The header that replicates the next byte three times is \<open>FE\<close>
  (254, and \<open>257 - 254 = 3\<close>): the row \<open>02 AA BB CC FE DD 00 EE\<close> with expected
  width 7 decodes, by both single-row decoders, to \<open>AA BB CC DD DD DD EE\<close>.
\<close>

theorem packbits_example_row_amended:
  "psd_packbits_decode_row [0x02, 0xAA, 0xBB, 0xCC, 0xFE, 0xDD, 0x00, 0xEE] 7
     = Inr [0xAA, 0xBB, 0xCC, 0xDD, 0xDD, 0xDD, 0xEE]
   \<and> psd_rle_decode_scanline [0x02, 0xAA, 0xBB, 0xCC, 0xFE, 0xDD, 0x00, 0xEE] 7
     = Inr [0xAA, 0xBB, 0xCC, 0xDD, 0xDD, 0xDD, 0xEE]"
  by (simp add: psd_packbits_decode_row_def psd_rle_decode_scanline_def
        packbits_loop.simps rle_scanline_loop.simps numeral_3_eq_3)

text \<open>
  C5, witness: the amended row at work; the decoded row has the expected width.
\<close>

theorem packbits_example_row_amended_witness:
  "length (projr (psd_packbits_decode_row [0x02, 0xAA, 0xBB, 0xCC, 0xFE, 0xDD, 0x00, 0xEE] 7)) = 7"
  using packbits_example_row_amended by simp

subsection \<open>Single-row decoders: what success means\<close>

lemma packbits_loop_error:
  "packbits_loop src n si di dst = Inl e \<Longrightarrow> e = PSD_ERR_CORRUPT_DATA"
proof (induction src n si di dst rule: packbits_loop.induct)
  case (1 src dst_len si di dst)
  from "1.prems" show ?case
    by (subst (asm) packbits_loop.simps) (auto split: if_splits intro: "1.IH")
qed

lemma packbits_loop_length:
  "packbits_loop src n si di dst = Inr (si', di', dst') \<Longrightarrow> length dst = di
     \<Longrightarrow> length dst' = di'"
proof (induction src n si di dst rule: packbits_loop.induct)
  case (1 src dst_len si di dst)
  from "1.prems" show ?case
    by (subst (asm) packbits_loop.simps) (auto split: if_splits intro: "1.IH")
qed

lemma rle_scanline_loop_error:
  "rle_scanline_loop src n si di dst = Inl e \<Longrightarrow> e = PSD_ERR_CORRUPT_DATA"
proof (induction src n si di dst rule: rle_scanline_loop.induct)
  case (1 src dst_len si di dst)
  from "1.prems" show ?case
    by (subst (asm) rle_scanline_loop.simps) (auto split: if_splits intro: "1.IH")
qed

lemma rle_scanline_loop_length:
  "rle_scanline_loop src n si di dst = Inr (si', di', dst') \<Longrightarrow> length dst = di
     \<Longrightarrow> length dst' = di'"
proof (induction src n si di dst rule: rle_scanline_loop.induct)
  case (1 src dst_len si di dst)
  from "1.prems" show ?case
    by (subst (asm) rle_scanline_loop.simps) (auto split: if_splits intro: "1.IH")
qed

text \<open>
  C4, as stated, fails for \<^verbatim>\<open>psd_rle_decode_scanline\<close>: with expected width 1 the
  input \<open>00 AA FF\<close> is accepted although the loop stops after two of its three bytes.
\<close>

theorem rle_scanline_trailing_input_accepted:
  "psd_rle_decode_scanline [0x00, 0xAA, 0xFF] 1 = Inr [0xAA]
   \<and> rle_scanline_loop [0x00, 0xAA, 0xFF] 1 0 0 [] = Inr (2, 1, [0xAA])
   \<and> length [0x00, 0xAA, 0xFF :: u8] = 3"
  by (simp add: psd_rle_decode_scanline_def rle_scanline_loop.simps)

text \<open>
  C4, amended. \<^verbatim>\<open>psd_packbits_decode_row\<close> succeeds only when its loop ends with
  exactly \<open>dst_len\<close> bytes produced and exactly the whole input consumed; every other
  outcome is corrupt-data. \<^verbatim>\<open>psd_rle_decode_scanline\<close> succeeds only when exactly
  \<open>width\<close> bytes are produced, every failure is corrupt-data, and it does not ask that
  the whole input be consumed.
\<close>

theorem single_row_decode_exactness:
  "(psd_packbits_decode_row src n = Inr out \<longrightarrow>
      length out = n \<and> packbits_loop src n 0 0 [] = Inr (length src, n, out))
   \<and> (psd_packbits_decode_row src n = Inl e \<longrightarrow> e = PSD_ERR_CORRUPT_DATA)
   \<and> (packbits_loop src n 0 0 [] = Inr (si, di, d) \<and> (si \<noteq> length src \<or> di \<noteq> n) \<longrightarrow>
        psd_packbits_decode_row src n = Inl PSD_ERR_CORRUPT_DATA)
   \<and> (psd_rle_decode_scanline src n = Inr out \<longrightarrow>
        length out = n \<and> (\<exists>cp. rle_scanline_loop src n 0 0 [] = Inr (cp, n, out)))
   \<and> (psd_rle_decode_scanline src n = Inl e \<longrightarrow> e = PSD_ERR_CORRUPT_DATA)
   \<and> (rle_scanline_loop src n 0 0 [] = Inr (cp, dp, d) \<and> dp \<noteq> n \<longrightarrow>
        psd_rle_decode_scanline src n = Inl PSD_ERR_CORRUPT_DATA)"
proof (intro conjI impI)
  assume a: "psd_packbits_decode_row src n = Inr out"
  then obtain si di where l: "packbits_loop src n 0 0 [] = Inr (si, di, out)"
    and e: "si = length src" "di = n"
    by (auto simp: psd_packbits_decode_row_def split: sum.splits if_splits)
  from packbits_loop_length [OF l] e show "length out = n" by simp
  from l e show "packbits_loop src n 0 0 [] = Inr (length src, n, out)" by simp
next
  assume "psd_packbits_decode_row src n = Inl e"
  then show "e = PSD_ERR_CORRUPT_DATA"
    by (auto simp: psd_packbits_decode_row_def split: sum.splits if_splits
          dest: packbits_loop_error)
next
  assume "packbits_loop src n 0 0 [] = Inr (si, di, d) \<and> (si \<noteq> length src \<or> di \<noteq> n)"
  then show "psd_packbits_decode_row src n = Inl PSD_ERR_CORRUPT_DATA"
    by (auto simp: psd_packbits_decode_row_def)
next
  assume a: "psd_rle_decode_scanline src n = Inr out"
  then obtain cp dp where l: "rle_scanline_loop src n 0 0 [] = Inr (cp, dp, out)"
    and e: "dp = n"
    by (auto simp: psd_rle_decode_scanline_def split: sum.splits if_splits)
  from rle_scanline_loop_length [OF l] e show "length out = n" by simp
  from l e show "\<exists>cp. rle_scanline_loop src n 0 0 [] = Inr (cp, n, out)" by blast
next
  assume "psd_rle_decode_scanline src n = Inl e"
  then show "e = PSD_ERR_CORRUPT_DATA"
    by (auto simp: psd_rle_decode_scanline_def split: sum.splits if_splits
          dest: rle_scanline_loop_error)
next
  assume "rle_scanline_loop src n 0 0 [] = Inr (cp, dp, d) \<and> dp \<noteq> n"
  then show "psd_rle_decode_scanline src n = Inl PSD_ERR_CORRUPT_DATA"
    by (auto simp: psd_rle_decode_scanline_def)
qed

text \<open>
  C4, witness: an accepted row, a row with a trailing byte that
  \<^verbatim>\<open>psd_packbits_decode_row\<close> rejects, and a short row that
  \<^verbatim>\<open>psd_rle_decode_scanline\<close> rejects.
\<close>

theorem single_row_decode_exactness_witness:
  "psd_packbits_decode_row [0x00, 0xAA] 1 = Inr [0xAA]
   \<and> packbits_loop [0x00, 0xAA] 1 0 0 [] = Inr (length [0x00, 0xAA :: u8], 1, [0xAA])
   \<and> packbits_loop [0x00, 0xAA, 0xFF] 1 0 0 [] = Inr (2, 1, [0xAA])
   \<and> psd_packbits_decode_row [0x00, 0xAA, 0xFF] 1 = Inl PSD_ERR_CORRUPT_DATA
   \<and> rle_scanline_loop [0x00, 0xAA] 2 0 0 [] = Inr (2, 1, [0xAA])
   \<and> psd_rle_decode_scanline [0x00, 0xAA] 2 = Inl PSD_ERR_CORRUPT_DATA"
proof -
  have ok: "psd_packbits_decode_row [0x00, 0xAA] 1 = Inr [0xAA]"
    by (simp add: psd_packbits_decode_row_def packbits_loop.simps)
  have l: "packbits_loop [0x00, 0xAA, 0xFF] 1 0 0 [] = Inr (2, 1, [0xAA])"
    by (simp add: packbits_loop.simps)
  have r: "rle_scanline_loop [0x00, 0xAA] 2 0 0 [] = Inr (2, 1, [0xAA])"
    by (simp add: rle_scanline_loop.simps)
  from single_row_decode_exactness [of "[0x00, 0xAA]" 1 "[0xAA]"] ok
  have 1: "packbits_loop [0x00, 0xAA] 1 0 0 [] = Inr (length [0x00, 0xAA :: u8], 1, [0xAA])"
    by blast
  from single_row_decode_exactness [of "[0x00, 0xAA, 0xFF]" 1 _ _ 2 1 "[0xAA]"] l
  have 2: "psd_packbits_decode_row [0x00, 0xAA, 0xFF] 1 = Inl PSD_ERR_CORRUPT_DATA"
    by simp
  from single_row_decode_exactness [of "[0x00, 0xAA]" 2 _ _ _ _ "[0xAA]" 2 1] r
  have 3: "psd_rle_decode_scanline [0x00, 0xAA] 2 = Inl PSD_ERR_CORRUPT_DATA"
    by simp
  from ok 1 l 2 r 3 show ?thesis by blast
qed

subsection \<open>Derived layer type\<close>

text \<open>
  C8. The priority order puts group-end first: a layer with both \<open>is_group_end\<close> and
  \<open>is_group_start\<close> set is to be classified GroupEnd. The if-chain of
  \<^verbatim>\<open>psd_document_get_layer_type\<close>, under its comment ``Group end markers are
  structural only'', tests \<open>is_group_start\<close> first, and such a layer (one with a section
  divider of type 1 or 2 and one of type 3) is classified GroupStart.
\<close>

theorem layer_type_both_group_flags:
  "psd_document_get_layer_type
     (document_init \<lparr> doc_layers :=
        [layer_init \<lparr> features :=
           features_init \<lparr> is_group_start := True, is_group_end := True \<rparr> \<rparr>] \<rparr>) 0
   = Inr PSD_LAYER_TYPE_GROUP_START
   \<and> psd_document_get_layer_type
     (document_init \<lparr> doc_layers :=
        [layer_init \<lparr> features :=
           features_init \<lparr> is_group_start := True, is_group_end := True \<rparr> \<rparr>] \<rparr>) 0
   \<noteq> Inr PSD_LAYER_TYPE_GROUP_END"
  by (simp add: psd_document_get_layer_type_def layer_count_def document_init_def
        layer_init_def features_init_def)

subsection \<open>Row-count width of an RLE layer channel\<close>

lemma rle_counts_loop_eq:
  "y \<le> height \<Longrightarrow> t \<le> len - cs \<Longrightarrow>
   rle_counts_loop c len height rb cs y t =
     (if t + (\<Sum>k = y..<height. rle_row_count c rb k) \<le> len - cs
        then Inr (t + (\<Sum>k = y..<height. rle_row_count c rb k))
      else Inl PSD_ERR_CORRUPT_DATA)"
proof (induction c len height rb cs y t rule: rle_counts_loop.induct)
  case (1 c len height rb cs y t)
  show ?case
  proof (cases "y < height")
    case False
    with "1.prems" show ?thesis by (subst rle_counts_loop.simps) simp
  next
    case True
    then have s: "(\<Sum>k = y..<height. rle_row_count c rb k)
        = rle_row_count c rb y + (\<Sum>k = Suc y..<height. rle_row_count c rb k)"
      by (simp add: sum.atLeast_Suc_lessThan)
    show ?thesis
    proof (cases "t + rle_row_count c rb y > len - cs")
      case True
      with \<open>y < height\<close> s show ?thesis by (subst rle_counts_loop.simps) simp
    next
      case False
      with \<open>y < height\<close> "1.IH" s show ?thesis
        by (subst rle_counts_loop.simps) (simp add: add.assoc)
    qed
  qed
qed

lemma parse_rle_row_counts_eq:
  "parse_rle_row_counts c len height rb =
     (if rle_total c height rb \<le> len
        then Inr (unat height * rb, rle_total c height rb - unat height * rb)
      else Inl PSD_ERR_CORRUPT_DATA)"
  by (auto simp: parse_rle_row_counts_def rle_counts_loop_eq rle_total_def Let_def mult.commute)

lemma rle_row_count_selection_eq:
  "rle_row_count_selection c len height =
     (if rle_total c height 2 \<le> len \<and> rle_total c height 4 \<le> len then
        (if rle_total c height 4 = len \<and> rle_total c height 2 \<noteq> len
           then Inr (4, unat height * 4, rle_total c height 4 - unat height * 4)
         else Inr (2, unat height * 2, rle_total c height 2 - unat height * 2))
      else if rle_total c height 2 \<le> len
        then Inr (2, unat height * 2, rle_total c height 2 - unat height * 2)
      else if rle_total c height 4 \<le> len
        then Inr (4, unat height * 4, rle_total c height 4 - unat height * 4)
      else Inl PSD_ERR_CORRUPT_DATA)"
  by (auto simp: rle_row_count_selection_def parse_rle_row_counts_eq rle_total_def)

text \<open>
  C2, as stated, fails: for the payload \<open>00 02 00 AA FF\<close> of a one-row channel neither
  candidate total equals the payload length 5 (they are 4 and 131246), yet decoding does
  not fail: the 2-byte table is used and the channel decodes to \<open>AA\<close>.
\<close>

theorem rle_neither_total_exact_accepted:
  "rle_total [0x00, 0x02, 0x00, 0xAA, 0xFF] 1 2 \<noteq> 5
   \<and> rle_total [0x00, 0x02, 0x00, 0xAA, 0xFF] 1 4 \<noteq> 5
   \<and> psd_layer_channel_decode (\<lambda>framed input avail. None)
        \<lparr> channel_id = 0, compression = 1, compressed_length = 5,
          compressed_data = Some [0x00, 0x02, 0x00, 0xAA, 0xFF],
          decoded_data = None, decoded_length = 0, is_decoded = False \<rparr> 1 1 8
      = (PSD_OK,
        \<lparr> channel_id = 0, compression = 1, compressed_length = 5,
          compressed_data = Some [0x00, 0x02, 0x00, 0xAA, 0xFF],
          decoded_data = Some [0xAA], decoded_length = 1, is_decoded = True \<rparr>)"
proof -
  have t2: "rle_total [0x00, 0x02, 0x00, 0xAA, 0xFF] 1 2 = 4"
    by (simp add: rle_total_def rle_row_count_def read_be_u16_def)
  have t4: "rle_total [0x00, 0x02, 0x00, 0xAA, 0xFF] 1 4 = 131246"
    by (simp add: rle_total_def rle_row_count_def read_be_u32_def)
  have sel: "rle_row_count_selection [0x00, 0x02, 0x00, 0xAA, 0xFF] 5 1 = Inr (2, 2, 2)"
    by (simp add: rle_row_count_selection_eq t2 t4)
  have rows: "rle_rows_loop [0x00, 0x02, 0x00, 0xAA, 0xFF] 2 2 2 1 1 0 0 [] = Inr [0xAA]"
    by (simp add: rle_rows_loop.simps rle_row_count_def read_be_u16_def
          psd_packbits_decode_row_def packbits_loop.simps)
  from rows show ?thesis
    by (simp add: t2 t4 psd_layer_channel_decode_def sel mark_decoded_def)
qed

text \<open>
  C2, amended. A width \<open>w\<close> parses when \<open>total_w \<le>\<close> the payload length. When both
  widths parse, 4 bytes are selected only if \<open>total4\<close> equals the payload length exactly
  and \<open>total2\<close> does not; in every other case, also when neither total is exact,
  2 bytes are selected. When one width parses, it is selected. Only when neither parses does
  the selection, and with it \<^verbatim>\<open>psd_layer_channel_decode\<close>, fail with corrupt-data.
\<close>

theorem rle_width_selection:
  "rle_row_count_selection c len height =
     (if rle_total c height 2 \<le> len \<and> rle_total c height 4 \<le> len then
        (if rle_total c height 4 = len \<and> rle_total c height 2 \<noteq> len
           then Inr (4, unat height * 4, rle_total c height 4 - unat height * 4)
         else Inr (2, unat height * 2, rle_total c height 2 - unat height * 2))
      else if rle_total c height 2 \<le> len
        then Inr (2, unat height * 2, rle_total c height 2 - unat height * 2)
      else if rle_total c height 4 \<le> len
        then Inr (4, unat height * 4, rle_total c height 4 - unat height * 4)
      else Inl PSD_ERR_CORRUPT_DATA)
   \<and> (compression ch = 1 \<and> \<not> is_decoded ch \<and> compressed_data ch = Some c
        \<and> unat (compressed_length ch) = len
        \<and> len < rle_total c height 2 \<and> len < rle_total c height 4 \<longrightarrow>
      psd_layer_channel_decode inflate ch width height depth = (PSD_ERR_CORRUPT_DATA, ch))"
proof (intro conjI impI)
  show "rle_row_count_selection c len height =
     (if rle_total c height 2 \<le> len \<and> rle_total c height 4 \<le> len then
        (if rle_total c height 4 = len \<and> rle_total c height 2 \<noteq> len
           then Inr (4, unat height * 4, rle_total c height 4 - unat height * 4)
         else Inr (2, unat height * 2, rle_total c height 2 - unat height * 2))
      else if rle_total c height 2 \<le> len
        then Inr (2, unat height * 2, rle_total c height 2 - unat height * 2)
      else if rle_total c height 4 \<le> len
        then Inr (4, unat height * 4, rle_total c height 4 - unat height * 4)
      else Inl PSD_ERR_CORRUPT_DATA)"
    by (rule rle_row_count_selection_eq)
next
  assume a: "compression ch = 1 \<and> \<not> is_decoded ch \<and> compressed_data ch = Some c
        \<and> unat (compressed_length ch) = len
        \<and> len < rle_total c height 2 \<and> len < rle_total c height 4"
  then have sel: "rle_row_count_selection c len height = Inl PSD_ERR_CORRUPT_DATA"
    by (simp add: rle_row_count_selection_eq)
  have bps: "\<not> (8 \<le> unat depth \<and> unat depth div 8 = 0)"
    by (simp add: div_eq_0_iff) 
  from a sel bps show
    "psd_layer_channel_decode inflate ch width height depth = (PSD_ERR_CORRUPT_DATA, ch)"
    by (auto simp: psd_layer_channel_decode_def Let_def)
qed

text \<open>
  C2, witness: a payload for which the 4-byte width is selected, one for which the 2-byte
  width is, and one that neither width parses.
\<close>

theorem rle_width_selection_witness:
  "rle_row_count_selection [0x00, 0x00, 0x00, 0x02, 0x00, 0xAA] 6 1 = Inr (4, 4, 2)
   \<and> rle_row_count_selection [0x00, 0x02, 0x00, 0xAA, 0xFF] 5 1 = Inr (2, 2, 2)
   \<and> psd_layer_channel_decode (\<lambda>framed input avail. None)
        \<lparr> channel_id = 0, compression = 1, compressed_length = 5,
          compressed_data = Some [0xFF, 0xFF, 0x00, 0x00, 0x00],
          decoded_data = None, decoded_length = 0, is_decoded = False \<rparr> 1 1 8
      = (PSD_ERR_CORRUPT_DATA,
        \<lparr> channel_id = 0, compression = 1, compressed_length = 5,
          compressed_data = Some [0xFF, 0xFF, 0x00, 0x00, 0x00],
          decoded_data = None, decoded_length = 0, is_decoded = False \<rparr>)"
proof -
  have a2: "rle_total [0x00, 0x00, 0x00, 0x02, 0x00, 0xAA] 1 2 = 2"
    by (simp add: rle_total_def rle_row_count_def read_be_u16_def)
  have a4: "rle_total [0x00, 0x00, 0x00, 0x02, 0x00, 0xAA] 1 4 = 6"
    by (simp add: rle_total_def rle_row_count_def read_be_u32_def)
  have b2: "rle_total [0x00, 0x02, 0x00, 0xAA, 0xFF] 1 2 = 4"
    by (simp add: rle_total_def rle_row_count_def read_be_u16_def)
  have b4: "rle_total [0x00, 0x02, 0x00, 0xAA, 0xFF] 1 4 = 131246"
    by (simp add: rle_total_def rle_row_count_def read_be_u32_def)
  have c2: "rle_total [0xFF, 0xFF, 0x00, 0x00, 0x00] 1 2 = 65537"
    by (simp add: rle_total_def rle_row_count_def read_be_u16_def)
  have c4: "rle_total [0xFF, 0xFF, 0x00, 0x00, 0x00] 1 4 = 4294901764"
    by (simp add: rle_total_def rle_row_count_def read_be_u32_def)
  have 1: "rle_row_count_selection [0x00, 0x00, 0x00, 0x02, 0x00, 0xAA] 6 1 = Inr (4, 4, 2)"
    using rle_width_selection [of "[0x00, 0x00, 0x00, 0x02, 0x00, 0xAA]" 6 1]
    by (simp add: a2 a4)
  have 2: "rle_row_count_selection [0x00, 0x02, 0x00, 0xAA, 0xFF] 5 1 = Inr (2, 2, 2)"
    using rle_width_selection [of "[0x00, 0x02, 0x00, 0xAA, 0xFF]" 5 1]
    by (simp add: b2 b4)
  have 3: "psd_layer_channel_decode (\<lambda>framed input avail. None)
        \<lparr> channel_id = 0, compression = 1, compressed_length = 5,
          compressed_data = Some [0xFF, 0xFF, 0x00, 0x00, 0x00],
          decoded_data = None, decoded_length = 0, is_decoded = False \<rparr> 1 1 8
      = (PSD_ERR_CORRUPT_DATA,
        \<lparr> channel_id = 0, compression = 1, compressed_length = 5,
          compressed_data = Some [0xFF, 0xFF, 0x00, 0x00, 0x00],
          decoded_data = None, decoded_length = 0, is_decoded = False \<rparr>)"
    using rle_width_selection [of "[0xFF, 0xFF, 0x00, 0x00, 0x00]" 5 1
        "\<lparr> channel_id = 0, compression = 1, compressed_length = 5,
          compressed_data = Some [0xFF, 0xFF, 0x00, 0x00, 0x00],
          decoded_data = None, decoded_length = 0, is_decoded = False \<rparr>"
        "\<lambda>framed input avail. None" 1 8]
    by (simp add: c2 c4)
  from 1 2 3 show ?thesis by simp
qed

subsection \<open>Prediction reversal\<close>

text \<open>
  C6, the code at a failing input. The scanline \<open>03 0A 14\<close> (filter Average, one byte per
  pixel) is reversed to \<open>0F 1B\<close>: the first byte becomes \<open>10 + 10 div 2 = 15\<close>
  instead of staying 10, and the second \<open>20 + 15 div 2 = 27\<close> instead of 25. The
  third byte of the buffer is what the move leaves behind.
\<close>

theorem zip_average_first_pixel:
  "psd_zip_reverse_prediction [3, 10, 20] 0 3 1 = (PSD_OK, [15, 27, 27])"
  by (simp add: psd_zip_reverse_prediction_def memmove_def upt_rec)

subsection \<open>Reading from the byte source\<close>

lemma read_exact_loop_done:
  "count \<le> length got \<Longrightarrow> read_exact_loop stream count got = (Inr got, stream)"
  by (subst read_exact_loop.simps) simp

lemma read_exact_loop_at_end:
  "length (buffer stream) \<le> position stream \<Longrightarrow> length got < count \<Longrightarrow>
   read_exact_loop stream count got = (Inl PSD_ERR_STREAM_EOF, stream)"
  by (subst read_exact_loop.simps) (simp add: psd_stream_read_def Let_def)

lemma psd_stream_read_exact_eq:
  "psd_stream_read_exact stream count =
    (if count = 0 then (Inr [], stream)
     else if position stream + count \<le> length (buffer stream)
       then (Inr (take count (drop (position stream) (buffer stream))),
             stream \<lparr> position := position stream + count \<rparr>)
     else (Inl PSD_ERR_STREAM_EOF,
           stream \<lparr> position := position stream + (length (buffer stream) - position stream) \<rparr>))"
proof (cases "count = 0")
  case True
  then show ?thesis
    by (simp add: psd_stream_read_exact_def read_exact_loop_done)
next
  case False
  show ?thesis
  proof (cases "position stream + count \<le> length (buffer stream)")
    case True
    with False show ?thesis
      unfolding psd_stream_read_exact_def
      by (subst read_exact_loop.simps)
         (auto simp: psd_stream_read_def Let_def read_exact_loop_done)
  next
    case False
    note big = this
    show ?thesis
    proof (cases "position stream < length (buffer stream)")
      case True
      with big \<open>count \<noteq> 0\<close> show ?thesis
        unfolding psd_stream_read_exact_def
        by (subst read_exact_loop.simps)
           (auto simp: psd_stream_read_def Let_def read_exact_loop_at_end)
    next
      case False
      with big \<open>count \<noteq> 0\<close> show ?thesis
        unfolding psd_stream_read_exact_def
        by (simp add: read_exact_loop_at_end)
    qed
  qed
qed

subsection \<open>The text-layer index and the block signatures\<close>

text \<open>
  C9, the code at a failing input. A layer with \<open>has_text\<close> set whose extra data is an
  empty mask region, an empty blending-range region, an empty name and one tagged block
  \<open>8B64\<close> \<open>TySh\<close> with the two payload bytes \<open>00 01\<close>: the scan compares the
  signature with \<open>0x3842494D\<close> and \<open>0x3842364D\<close>, never with \<open>0x38423634\<close>
  (\<open>8B64\<close>), so the block is skipped and no text-layer record is emitted. The same
  block under the signature \<open>8BIM\<close> yields one record that keeps the payload.
\<close>

theorem text_index_skips_8B64:
  "psd_parse_text_layers text_layer_zero
     (document_init \<lparr> doc_layers :=
        [layer_init \<lparr> features := features_init \<lparr> has_text := True \<rparr>,
           additional_data := Some [0, 0, 0, 0,  0, 0, 0, 0,  0, 0, 0, 0,
                                    0x38, 0x42, 0x36, 0x34,  0x54, 0x79, 0x53, 0x68,
                                    0, 0, 0, 2,  0, 1],
           additional_length := 26 \<rparr>] \<rparr>)
   = Some (document_init \<lparr> doc_layers :=
        [layer_init \<lparr> features := features_init \<lparr> has_text := True \<rparr>,
           additional_data := Some [0, 0, 0, 0,  0, 0, 0, 0,  0, 0, 0, 0,
                                    0x38, 0x42, 0x36, 0x34,  0x54, 0x79, 0x53, 0x68,
                                    0, 0, 0, 2,  0, 1],
           additional_length := 26 \<rparr>],
        doc_text_layers := [] \<rparr>)
   \<and> map_option (\<lambda>doc. map (\<lambda>t. (tl_layer_index t, tl_source t, raw_tysh t, tysh_version t))
                       (doc_text_layers doc))
    (psd_parse_text_layers text_layer_zero
     (document_init \<lparr> doc_layers :=
        [layer_init \<lparr> features := features_init \<lparr> has_text := True \<rparr>,
           additional_data := Some [0, 0, 0, 0,  0, 0, 0, 0,  0, 0, 0, 0,
                                    0x38, 0x42, 0x49, 0x4D,  0x54, 0x79, 0x53, 0x68,
                                    0, 0, 0, 2,  0, 1],
           additional_length := 26 \<rparr>] \<rparr>))
   = Some [(0, PSD_TEXT_SOURCE_TYSH, Some [0, 1], 1)]"
  by (simp add: psd_parse_text_layers_def layer_count_def document_init_def layer_init_def
        features_init_def text_layers_of_layer_def skip_length_region_def skip_layer_name_def
        read_be_u32_def read_be_u16_def text_blocks_loop.simps Let_def psd_parse_tysh_payload_def
        read_be16_or_def read_be32_or_def read_be_double_or_def psd_stream_read_be16_def
        psd_stream_read_be32_def psd_stream_read_be64_def psd_stream_read_exact_eq
        psd_read_be16_def psd_stream_tell_def text_layer_zero_def layer_has_rendered_pixels_def
        channel_count_def)

subsection \<open>The header invariant\<close>

lemma psd_stream_read_be16_eq:
  "psd_stream_read_be16 s =
    (if position s + 2 \<le> length (buffer s)
       then (Inr (read_be_u16 (buffer s) (position s)), s \<lparr> position := position s + 2 \<rparr>)
     else (Inl PSD_ERR_STREAM_EOF,
           s \<lparr> position := position s + (length (buffer s) - position s) \<rparr>))"
  by (simp add: psd_stream_read_be16_def psd_stream_read_exact_eq psd_read_be16_def
        read_be_u16_def)

lemma psd_stream_read_be32_eq:
  "psd_stream_read_be32 s =
    (if position s + 4 \<le> length (buffer s)
       then (Inr (read_be_u32 (buffer s) (position s)), s \<lparr> position := position s + 4 \<rparr>)
     else (Inl PSD_ERR_STREAM_EOF,
           s \<lparr> position := position s + (length (buffer s) - position s) \<rparr>))"
  by (simp add: psd_stream_read_be32_def psd_stream_read_exact_eq psd_read_be32_def
        read_be_u32_def add.commute)

lemma psd_parse_header_ok:
  assumes "psd_parse_header s doc = (PSD_OK, doc', s')"
  shows "header_bytes_valid (buffer s) (position s)
    \<and> doc' = doc \<lparr> doc_is_psb := (read_be_u16 (buffer s) (position s + 4) = 2),
                    doc_channels := read_be_u16 (buffer s) (position s + 12),
                    doc_height := read_be_u32 (buffer s) (position s + 14),
                    doc_width := read_be_u32 (buffer s) (position s + 18),
                    doc_depth := read_be_u16 (buffer s) (position s + 22),
                    doc_color_mode := read_be_u16 (buffer s) (position s + 24) \<rparr>
    \<and> s' = s \<lparr> position := position s + 26 \<rparr>"
  using assms
  unfolding psd_parse_header_def psd_stream_read_be16_eq psd_stream_read_be32_eq
    psd_stream_read_exact_eq Let_def header_bytes_valid_def
    PSD_SIGNATURE_def PSD_VERSION_PSD_def PSD_VERSION_PSB_def PSD_MAX_CHANNELS_def
    PSD_MAX_DIMENSION_STANDARD_def PSD_MAX_DIMENSION_PSB_def
  apply (simp split: if_splits add: word_less_nat_alt word_le_nat_alt add.assoc)
   apply (auto simp: add.commute)
  done

lemma psd_parse_header_valid:
  assumes "header_bytes_valid (buffer s) (position s)"
  shows "fst (psd_parse_header s doc) = PSD_OK"
  using assms
  unfolding psd_parse_header_def psd_stream_read_be16_eq psd_stream_read_be32_eq
    psd_stream_read_exact_eq Let_def header_bytes_valid_def
    PSD_SIGNATURE_def PSD_VERSION_PSD_def PSD_VERSION_PSB_def PSD_MAX_CHANNELS_def
    PSD_MAX_DIMENSION_STANDARD_def PSD_MAX_DIMENSION_PSB_def
  apply (simp add: word_less_nat_alt word_le_nat_alt add.assoc)
  apply (auto simp: add.commute)
  done

lemma psd_parse_header_errors:
  "fst (psd_parse_header s doc) \<in>
     {PSD_OK, PSD_ERR_STREAM_EOF, PSD_ERR_INVALID_FILE_FORMAT, PSD_ERR_UNSUPPORTED_VERSION,
      PSD_ERR_INVALID_HEADER}"
  unfolding psd_parse_header_def psd_stream_read_be16_eq psd_stream_read_be32_eq
    psd_stream_read_exact_eq Let_def
  by simp

lemma psd_parse_text_layers_frame:
  "psd_parse_text_layers uninit d = Some d' \<Longrightarrow> d' = d \<lparr> doc_text_layers := doc_text_layers d' \<rparr>"
  by (auto simp: psd_parse_text_layers_def split: if_splits option.splits)

lemma header_invariant_of_valid:
  assumes "header_bytes_valid b p"
    and "doc_is_psb d = (read_be_u16 b (p + 4) = 2)"
    and "doc_channels d = read_be_u16 b (p + 12)"
    and "doc_height d = read_be_u32 b (p + 14)"
    and "doc_width d = read_be_u32 b (p + 18)"
    and "doc_depth d = read_be_u16 b (p + 22)"
  shows "header_invariant d"
  using assms by (auto simp: header_invariant_def header_bytes_valid_def)

text \<open>
  C3. Every document that \<^verbatim>\<open>psd_parse_ex\<close> returns satisfies the header invariant:
  channel count in \<open>[1, 56]\<close>, depth one of 1, 8, 16, 32, width and height in
  \<open>[1, 30000]\<close> when the version field was 1 and in \<open>[1, 300000]\<close> when it was 2;
  its 26 header bytes are valid (signature \<open>8BPS\<close>, version 1 or 2, fields in range).
  A header that is not valid, which includes one cut short, makes \<^verbatim>\<open>psd_parse_ex\<close>
  and \<^verbatim>\<open>psd_parse\<close> return no document, with an error status.
\<close>

theorem parsed_document_header_invariant:
  "(psd_parse_ex sp uninit (Some stream) = Some (Some doc, st) \<longrightarrow>
      header_invariant doc
      \<and> header_bytes_valid (buffer stream) (position stream)
      \<and> doc_is_psb doc = (read_be_u16 (buffer stream) (position stream + 4) = 2))
   \<and> (\<not> header_bytes_valid (buffer stream) (position stream) \<longrightarrow>
        psd_parse sp uninit (Some stream) = Some None
        \<and> (\<exists>e. psd_parse_ex sp uninit (Some stream) = Some (None, e)
              \<and> e \<in> {PSD_ERR_STREAM_EOF, PSD_ERR_INVALID_FILE_FORMAT,
                       PSD_ERR_UNSUPPORTED_VERSION, PSD_ERR_INVALID_HEADER}))"
proof (intro conjI impI)
  assume ok: "psd_parse_ex sp uninit (Some stream) = Some (Some doc, st)"
  obtain status doc1 s1 where h: "psd_parse_header stream document_init = (status, doc1, s1)"
    by (cases "psd_parse_header stream document_init") auto
  with ok have st: "status = PSD_OK"
    by (auto simp: psd_parse_ex_def split: if_splits)
  from psd_parse_header_ok [OF h [unfolded st]]
  have v: "header_bytes_valid (buffer stream) (position stream)"
    and d1: "doc1 = document_init
        \<lparr> doc_is_psb := (read_be_u16 (buffer stream) (position stream + 4) = 2),
          doc_channels := read_be_u16 (buffer stream) (position stream + 12),
          doc_height := read_be_u32 (buffer stream) (position stream + 14),
          doc_width := read_be_u32 (buffer stream) (position stream + 18),
          doc_depth := read_be_u16 (buffer stream) (position stream + 22),
          doc_color_mode := read_be_u16 (buffer stream) (position stream + 24) \<rparr>"
    by simp_all
  obtain st2 cd s2 where c2: "psd_parse_color_mode_data sp s1 doc1 = (st2, cd, s2)"
    by (cases "psd_parse_color_mode_data sp s1 doc1") auto
  obtain st3 s3 where c3:
    "psd_parse_resources sp s2 (doc1 \<lparr> doc_color_data := cd \<rparr>) = (st3, s3)"
    by (cases "psd_parse_resources sp s2 (doc1 \<lparr> doc_color_data := cd \<rparr>)") auto
  obtain st4 ls tr s4 where c4:
    "psd_parse_layer_info sp s3 (doc1 \<lparr> doc_color_data := cd \<rparr>) = (st4, (ls, tr), s4)"
    by (cases "psd_parse_layer_info sp s3 (doc1 \<lparr> doc_color_data := cd \<rparr>)") auto
  let ?doc3 = "doc1 \<lparr> doc_color_data := cd, doc_layers := ls,
                       doc_has_transparency_layer := tr \<rparr>"
  from ok h st c2 c3 c4 obtain doc4 where c5: "psd_parse_text_layers uninit ?doc3 = Some doc4"
    by (auto simp: psd_parse_ex_def Let_def split: if_splits option.splits)
  obtain st6 c s6 where c6: "psd_parse_composite_image sp s4 doc4 = (st6, c, s6)"
    by (cases "psd_parse_composite_image sp s4 doc4") auto
  from ok h st c2 c3 c4 c5 c6 have dd: "doc = doc4 \<lparr> doc_composite := c \<rparr>"
    by (auto simp: psd_parse_ex_def Let_def split: if_splits)
  from psd_parse_text_layers_frame [OF c5]
  have d4: "doc4 = ?doc3 \<lparr> doc_text_layers := doc_text_layers doc4 \<rparr>" .
  have fields:
    "doc_is_psb doc = doc_is_psb doc1 \<and> doc_channels doc = doc_channels doc1
     \<and> doc_height doc = doc_height doc1 \<and> doc_width doc = doc_width doc1
     \<and> doc_depth doc = doc_depth doc1"
    by (subst dd, subst d4, simp)+
  show "header_bytes_valid (buffer stream) (position stream)" by (rule v)
  from fields d1 show "doc_is_psb doc = (read_be_u16 (buffer stream) (position stream + 4) = 2)"
    by simp
  from fields d1 show "header_invariant doc"
    by (intro header_invariant_of_valid [OF v]) simp_all
next
  assume nv: "\<not> header_bytes_valid (buffer stream) (position stream)"
  obtain status doc1 s1 where h: "psd_parse_header stream document_init = (status, doc1, s1)"
    by (cases "psd_parse_header stream document_init") auto
  from nv psd_parse_header_ok [of stream document_init doc1 s1] h have ne: "status \<noteq> PSD_OK"
    by auto
  from psd_parse_header_errors [of stream document_init] h ne
  have e: "status \<in> {PSD_ERR_STREAM_EOF, PSD_ERR_INVALID_FILE_FORMAT,
                       PSD_ERR_UNSUPPORTED_VERSION, PSD_ERR_INVALID_HEADER}"
    by auto
  from h ne have r: "psd_parse_ex sp uninit (Some stream) = Some (None, status)"
    by (simp add: psd_parse_ex_def)
  from r show "psd_parse sp uninit (Some stream) = Some None"
    by (simp add: psd_parse_def)
  from r e show "\<exists>e. psd_parse_ex sp uninit (Some stream) = Some (None, e)
              \<and> e \<in> {PSD_ERR_STREAM_EOF, PSD_ERR_INVALID_FILE_FORMAT,
                       PSD_ERR_UNSUPPORTED_VERSION, PSD_ERR_INVALID_HEADER}"
    by blast
qed

text \<open>
  The minimal RGB document of 38 bytes: the header (version 1, 3 channels, 256 rows of
  512 pixels, depth 8, RGB), the three section lengths 0, and no composite image. Read by
  the section parsers of the source it gives a document that satisfies the invariant; the
  same bytes with depth 9 give no document.
\<close>

theorem parsed_document_header_invariant_witness:
  "psd_parse_ex
      (source_parsers (\<lambda>n s d. (PSD_ERR_UNSUPPORTED_FEATURE, s))
         (\<lambda>p n s d. (PSD_ERR_UNSUPPORTED_FEATURE, ([], False), s))
         (\<lambda>c s d. (PSD_ERR_UNSUPPORTED_FEATURE, doc_composite d, s)))
      text_layer_zero
      (Some \<lparr> buffer = [0x38, 0x42, 0x50, 0x53,  0, 1,  0, 0, 0, 0, 0, 0,  0, 3,
                          0, 0, 1, 0,  0, 0, 2, 0,  0, 8,  0, 3,
                          0, 0, 0, 0,  0, 0, 0, 0,  0, 0, 0, 0],
              position = 0 \<rparr>)
    = Some (Some (document_init \<lparr> doc_channels := 3, doc_height := 256, doc_width := 512,
                                  doc_depth := 8, doc_color_mode := 3 \<rparr>), PSD_OK)
   \<and> header_invariant (document_init \<lparr> doc_channels := 3, doc_height := 256, doc_width := 512,
                                  doc_depth := 8, doc_color_mode := 3 \<rparr>)
   \<and> psd_parse
      (source_parsers (\<lambda>n s d. (PSD_ERR_UNSUPPORTED_FEATURE, s))
         (\<lambda>p n s d. (PSD_ERR_UNSUPPORTED_FEATURE, ([], False), s))
         (\<lambda>c s d. (PSD_ERR_UNSUPPORTED_FEATURE, doc_composite d, s)))
      text_layer_zero
      (Some \<lparr> buffer = [0x38, 0x42, 0x50, 0x53,  0, 1,  0, 0, 0, 0, 0, 0,  0, 3,
                          0, 0, 1, 0,  0, 0, 2, 0,  0, 9,  0, 3,
                          0, 0, 0, 0,  0, 0, 0, 0,  0, 0, 0, 0],
              position = 0 \<rparr>)
    = Some None"
proof -
  let ?sp = "(source_parsers (\<lambda>n s d. (PSD_ERR_UNSUPPORTED_FEATURE, s))
         (\<lambda>p n s d. (PSD_ERR_UNSUPPORTED_FEATURE, ([], False), s))
         (\<lambda>c s d. (PSD_ERR_UNSUPPORTED_FEATURE, doc_composite d, s)))"
  let ?good = "\<lparr> buffer = [0x38, 0x42, 0x50, 0x53,  0, 1,  0, 0, 0, 0, 0, 0,  0, 3,
                          0, 0, 1, 0,  0, 0, 2, 0,  0, 8,  0, 3,
                          0, 0, 0, 0,  0, 0, 0, 0,  0, 0, 0, 0] :: u8 list,
              position = 0 \<rparr>"
  let ?bad = "\<lparr> buffer = [0x38, 0x42, 0x50, 0x53,  0, 1,  0, 0, 0, 0, 0, 0,  0, 3,
                          0, 0, 1, 0,  0, 0, 2, 0,  0, 9,  0, 3,
                          0, 0, 0, 0,  0, 0, 0, 0,  0, 0, 0, 0] :: u8 list,
              position = 0 \<rparr>"
  let ?doc = "document_init \<lparr> doc_channels := 3, doc_height := 256, doc_width := 512,
                                  doc_depth := 8, doc_color_mode := 3 \<rparr>"
  have run: "psd_parse_ex ?sp text_layer_zero (Some ?good) = Some (Some ?doc, PSD_OK)"
    by (simp add: psd_parse_ex_def psd_parse_header_def psd_stream_read_be16_eq
          psd_stream_read_be32_eq psd_stream_read_exact_eq read_be_u16_def read_be_u32_def
          PSD_SIGNATURE_def PSD_VERSION_PSD_def PSD_VERSION_PSB_def PSD_MAX_CHANNELS_def
          PSD_MAX_DIMENSION_STANDARD_def PSD_MAX_DIMENSION_PSB_def Let_def
          psd_parse_text_layers_def layer_count_def document_init_def
          source_parsers_def psd_parse_color_mode_data_src_def psd_parse_resources_src_def
          psd_parse_layer_info_src_def psd_parse_composite_image_src_def
          psd_stream_read_length_def psd_stream_tell_def)
  have nv: "\<not> header_bytes_valid (buffer ?bad) (position ?bad)"
    by (simp add: header_bytes_valid_def read_be_u16_def)
  from parsed_document_header_invariant [of ?sp text_layer_zero ?good ?doc PSD_OK] run
  have 1: "header_invariant ?doc" by blast
  from parsed_document_header_invariant [of ?sp text_layer_zero ?bad] nv
  have 2: "psd_parse ?sp text_layer_zero (Some ?bad) = Some None" by blast
  from run 1 2 show ?thesis by blast
qed

subsection \<open>Channel lengths and the compression field\<close>

lemma int_eq_sint_unat: "int n = sint (w :: 'a::len word) \<Longrightarrow> n = unat w"
proof -
  assume a: "int n = sint w"
  then have nn: "0 \<le> sint w" by linarith
  have "sint w < 2 ^ (LENGTH('a) - 1)" by (rule sint_lt)
  also have "\<dots> \<le> 2 ^ LENGTH('a)" by (rule power_increasing) simp_all
  finally have "take_bit LENGTH('a) (sint w) = sint w"
    using nn by (simp add: take_bit_int_eq_self)
  then have "uint w = sint w" by (simp add: uint_sint)
  with a show ?thesis by (metis of_nat_eq_iff uint_nat)
qed

lemma ucast_le_3: "\<not> 3 < (v :: u16) \<Longrightarrow> (ucast v :: u8) \<le> 3"
proof -
  assume "\<not> 3 < v"
  then have le: "unat v \<le> 3" by (simp add: word_less_nat_alt)
  have "unat (ucast v :: u8) = take_bit 8 (unat v)"
    by (simp add: unsigned_ucast_eq)
  also have "\<dots> = unat v"
    using le by (simp add: take_bit_nat_eq_self)
  finally show ?thesis using le by (simp add: word_le_nat_alt)
qed

lemma read_payload:
  assumes r: "psd_stream_read s1 (unat L) = (bytes, s2)"
    and e: "int (length bytes) = sint (L :: u64)"
    and p: "position s1 \<le> length (buffer s1)"
  shows "length bytes = unat L
    \<and> bytes = take (unat L) (drop (position s1) (buffer s1))
    \<and> position s1 + unat L \<le> length (buffer s1)
    \<and> s2 = s1 \<lparr> position := position s1 + unat L \<rparr>"
proof -
  from e have l: "length bytes = unat L" by (rule int_eq_sint_unat)
  from r have b: "bytes = take (min (unat L) (length (buffer s1) - position s1))
                           (drop (position s1) (buffer s1))"
    and s: "s2 = s1 \<lparr> position := position s1
                       + min (unat L) (length (buffer s1) - position s1) \<rparr>"
    by (auto simp: psd_stream_read_def Let_def min_def split: if_splits)
  from b have "length bytes = min (unat L) (length (buffer s1) - position s1)"
    by simp
  with l have m: "min (unat L) (length (buffer s1) - position s1) = unat L" by simp
  with p have le: "position s1 + unat L \<le> length (buffer s1)"
    by (auto simp: min_def split: if_splits)
  from l b s m le show ?thesis by simp
qed

lemma read_channel_image_ok:
  assumes a: "read_channel_image ex s c = (Inr c', s')"
  shows "channel_payload_only ex c c' \<and> buffer s' = buffer s
    \<and> position s' = position s + 2 + unat (compressed_length c')
    \<and> position s' \<le> length (buffer s)
    \<and> compressed_data c' =
        Some (take (unat (compressed_length c')) (drop (position s + 2) (buffer s)))
    \<and> compression c' = ucast (read_be_u16 (buffer s) (position s))"
proof -
  let ?v = "read_be_u16 (buffer s) (position s)"
  let ?s1 = "s \<lparr> position := position s + 2 \<rparr>"
  from a have fit: "position s + 2 \<le> length (buffer s)"
    by (auto simp: read_channel_image_def psd_stream_read_be16_eq split: if_splits)
  with a have v3: "\<not> 3 < ?v"
    by (auto simp: read_channel_image_def psd_stream_read_be16_eq split: if_splits)
  let ?L = "if ex then compressed_length c else compressed_length c - 2"
  obtain bytes s2 where r: "psd_stream_read ?s1 (unat ?L) = (bytes, s2)"
    by (cases "psd_stream_read ?s1 (unat ?L)") auto
  from a fit v3 r have ge: "ex \<or> 2 \<le> compressed_length c"
    by (auto simp: read_channel_image_def psd_stream_read_be16_eq Let_def not_less
          split: if_splits)
  from a fit v3 r ge have e: "int (length bytes) = sint ?L"
    and c': "c' = c \<lparr> compression := ucast ?v, compressed_length := ?L,
                       compressed_data := Some bytes \<rparr>"
    and s': "s' = s2"
    by (auto simp: read_channel_image_def psd_stream_read_be16_eq Let_def
          split: if_splits)
  from fit have "position ?s1 \<le> length (buffer ?s1)" by simp
  from read_payload [OF r e this] c' s' ge v3 show ?thesis
    by (auto simp: channel_payload_only_def ucast_le_3)
qed

lemma channels_at_append:
  "channels_at b p (xs @ ys) = (channels_at b p xs \<and> channels_at b (p + channels_span xs) ys)"
  by (induction xs arbitrary: p) (auto simp: channels_span_def add.assoc)

lemma read_layer_channels_ok:
  assumes "read_layer_channels ex s cs = (Inr cs', s')"
    and "position s \<le> length (buffer s)"
  shows "list_all2 (channel_payload_only ex) cs cs' \<and> buffer s' = buffer s
    \<and> position s' = position s + channels_span cs'
    \<and> position s' \<le> length (buffer s)
    \<and> channels_at (buffer s) (position s) cs'"
  using assms
proof (induction cs arbitrary: s cs' s')
  case Nil
  then show ?case by (simp add: channels_span_def)
next
  case (Cons c cs)
  from Cons.prems(1) obtain c1 s1 cs1 where
    r1: "read_channel_image ex s c = (Inr c1, s1)"
    and r2: "read_layer_channels ex s1 cs = (Inr cs1, s')"
    and e: "cs' = c1 # cs1"
    by (auto split: prod.splits sum.splits)
  note h = read_channel_image_ok [OF r1]
  from h have p1: "position s1 \<le> length (buffer s1)" by simp
  note ih = Cons.IH [OF r2 p1]
  from h ih e show ?case
    by (simp add: channels_span_def add.assoc)
qed

lemma read_layers_channels_ok:
  assumes "read_layers_channels ex s ls = (Inr ls', s')"
    and "position s \<le> length (buffer s)"
  shows "list_all2 (\<lambda>l l'. l' = l \<lparr> channels := channels l' \<rparr>
                     \<and> list_all2 (channel_payload_only ex) (channels l) (channels l')) ls ls'
    \<and> buffer s' = buffer s
    \<and> position s' = position s + channels_span (concat (map channels ls'))
    \<and> position s' \<le> length (buffer s)
    \<and> channels_at (buffer s) (position s) (concat (map channels ls'))"
  using assms
proof (induction ls arbitrary: s ls' s')
  case Nil
  then show ?case by (simp add: channels_span_def)
next
  case (Cons l ls)
  from Cons.prems(1) obtain cs1 s1 ls1 where
    r1: "read_layer_channels ex s (channels l) = (Inr cs1, s1)"
    and r2: "read_layers_channels ex s1 ls = (Inr ls1, s')"
    and e: "ls' = l \<lparr> channels := cs1 \<rparr> # ls1"
    by (auto split: prod.splits sum.splits)
  note h = read_layer_channels_ok [OF r1 Cons.prems(2)]
  from h have p1: "position s1 \<le> length (buffer s1)" by simp
  note ih = Cons.IH [OF r2 p1]
  from h ih e show ?case
    by (simp add: channels_span_def channels_at_append add.assoc)
qed

lemma word_sum_list_of_nat: "(sum_list ws :: u64) = of_nat (sum_list (map unat ws))"
  by (induction ws) simp_all

lemma total_channels_of_nat:
  "total_channels ls = of_nat (length (concat (map channels ls)))"
  by (induction ls) (simp_all add: total_channels_def channel_count_def)

lemma byte_accounting_of_nat:
  "sum_channel_lengths ls + 2 * total_channels ls
     = of_nat (sum_list (map (\<lambda>c. unat (compressed_length c)) (concat (map channels ls)))
               + 2 * length (concat (map channels ls)))"
  by (simp add: sum_channel_lengths_def total_channels_of_nat word_sum_list_of_nat comp_def)

lemma of_nat_inj_u64:
  assumes "n < 2 ^ 64" and "m < 2 ^ 64"
  shows "((of_nat n :: u64) = of_nat m) = (n = m)"
proof
  assume "(of_nat n :: u64) = of_nat m"
  then have "unat (of_nat n :: u64) = unat (of_nat m :: u64)" by simp
  with assms show "n = m" by (simp add: unat_of_nat take_bit_nat_eq_self)
next
  assume "n = m" then show "(of_nat n :: u64) = of_nat m" by simp
qed

lemma byte_accounting_nat:
  assumes "sum_list (map (\<lambda>c. unat (compressed_length c)) (concat (map channels ls)))
             + 2 * length (concat (map channels ls)) < 2 ^ 64"
    and "0 \<le> r" and "r < 2 ^ 64"
  shows "(sum_channel_lengths ls + 2 * total_channels ls = word_of_int r)
     = (int (sum_list (map (\<lambda>c. unat (compressed_length c)) (concat (map channels ls)))
             + 2 * length (concat (map channels ls))) = r)"
proof -
  let ?N = "sum_list (map (\<lambda>c. unat (compressed_length c)) (concat (map channels ls)))
             + 2 * length (concat (map channels ls))"
  from assms(2) have w: "(word_of_int r :: u64) = of_nat (nat r)" by (rule word_of_int_nat)
  from assms(2,3) have rb: "nat r < 2 ^ 64" by (simp add: nat_less_iff)
  from assms(1) rb have "((of_nat ?N :: u64) = of_nat (nat r)) = (?N = nat r)"
    by (rule of_nat_inj_u64)
  with w assms(2) show ?thesis
    unfolding byte_accounting_of_nat by (auto simp: nat_eq_iff)
qed

text \<open>What a successful pass has done.\<close>

lemma channel_pass_result:
  assumes "psd_read_channel_image_data stream layer_info_end ls = (Inr ls', stream')"
    and "position stream \<le> length (buffer stream)"
    and "ex = (sum_channel_lengths ls + 2 * total_channels ls
                 = word_of_int (layer_info_end - int (position stream)))"
  shows "list_all2 (\<lambda>l l'. l' = l \<lparr> channels := channels l' \<rparr>
                     \<and> list_all2 (channel_payload_only ex) (channels l) (channels l')) ls ls'
    \<and> channels_at (buffer stream) (position stream) (concat (map channels ls'))
    \<and> position stream' = position stream + channels_span (concat (map channels ls'))
    \<and> buffer stream' = buffer stream
    \<and> (sum_list (map (\<lambda>c. unat (compressed_length c)) (concat (map channels ls)))
           + 2 * length (concat (map channels ls)) < 2 ^ 64
         \<and> layer_info_end - int (position stream) < 2 ^ 64 \<longrightarrow>
         ex = (int (sum_list (map (\<lambda>c. unat (compressed_length c)) (concat (map channels ls)))
                    + 2 * length (concat (map channels ls)))
               = layer_info_end - int (position stream)))"
proof -
  from assms(1) have r: "read_layers_channels
      (lengths_exclude_compression stream layer_info_end ls) stream ls = (Inr ls', stream')"
    and nn: "0 \<le> layer_info_end - int (position stream)"
    by (auto simp: psd_read_channel_image_data_def psd_stream_tell_def split: if_splits)
  from assms(3) have e: "lengths_exclude_compression stream layer_info_end ls = ex"
    by (simp add: lengths_exclude_compression_def psd_stream_tell_def)
  from byte_accounting_nat [OF _ nn] assms(3)
  have n: "sum_list (map (\<lambda>c. unat (compressed_length c)) (concat (map channels ls)))
           + 2 * length (concat (map channels ls)) < 2 ^ 64
         \<and> layer_info_end - int (position stream) < 2 ^ 64 \<longrightarrow>
         ex = (int (sum_list (map (\<lambda>c. unat (compressed_length c)) (concat (map channels ls)))
                    + 2 * length (concat (map channels ls)))
               = layer_info_end - int (position stream))"
    by blast
  from read_layers_channels_ok [OF r assms(2)] e n show ?thesis by simp
qed

text \<open>When the pass succeeds.\<close>

lemma sint_eq_unat_u64: "unat (L :: u64) < 2 ^ 63 \<Longrightarrow> sint L = int (unat L)"
proof -
  assume a: "unat L < 2 ^ 63"
  then have "int (unat L) < int (2 ^ 63)" by (simp only: of_nat_less_iff)
  then have u: "uint L < 2 ^ 63" by simp
  have "sint L = signed_take_bit 63 (uint L)" by (simp add: sint_uint)
  also have "\<dots> = uint L"
  proof (rule signed_take_bit_int_eq_self)
    have "(0 :: int) \<le> uint L" by simp
    moreover have "- (2 ^ 63) \<le> (0 :: int)" by simp
    ultimately show "- (2 ^ 63) \<le> uint L" by (rule order_trans [rotated])
    from u show "uint L < 2 ^ 63" .
  qed
  finally show ?thesis by simp
qed

lemma read_channel_image_succeeds:
  assumes f1: "position s + 2 \<le> length (buffer s)"
    and v: "read_be_u16 (buffer s) (position s) \<le> 3"
    and ge: "ex \<or> 2 \<le> compressed_length c"
    and n: "n = unat (if ex then compressed_length c else compressed_length c - 2)"
    and lt: "n < 2 ^ 63"
    and f2: "position s + 2 + n \<le> length (buffer s)"
  shows "\<exists>c'. read_channel_image ex s c = (Inr c', s \<lparr> position := position s + 2 + n \<rparr>)"
proof -
  let ?L = "if ex then compressed_length c else compressed_length c - 2"
  let ?s1 = "s \<lparr> position := position s + 2 \<rparr>"
  from v have v3: "\<not> 3 < read_be_u16 (buffer s) (position s)" by (simp add: not_less)
  from lt n have si: "sint ?L = int (unat ?L)" by (intro sint_eq_unat_u64) simp
  from f2 n have rd: "psd_stream_read ?s1 (unat ?L)
      = (take (unat ?L) (drop (position s + 2) (buffer s)),
         s \<lparr> position := position s + 2 + n \<rparr>)"
    by (auto simp: psd_stream_read_def Let_def)
  from f2 n have ln: "length (take (unat ?L) (drop (position s + 2) (buffer s))) = unat ?L"
    by auto
  show ?thesis
  proof (cases ex)
    case True
    with f1 v3 rd ln si show ?thesis
      by (simp add: read_channel_image_def psd_stream_read_be16_eq Let_def)
  next
    case False
    with ge have "\<not> compressed_length c < 2" by (simp add: not_less)
    with False f1 v3 rd ln si show ?thesis
      by (simp add: read_channel_image_def psd_stream_read_be16_eq Let_def)
  qed
qed

lemma read_layer_channels_succeeds:
  "channels_readable ex (buffer s) (position s) (cs @ rest)
     \<Longrightarrow> \<exists>cs' s'. read_layer_channels ex s cs = (Inr cs', s') \<and> buffer s' = buffer s
           \<and> channels_readable ex (buffer s') (position s') rest"
proof (induction cs arbitrary: s)
  case Nil
  then show ?case by simp
next
  case (Cons c cs)
  let ?n = "unat (if ex then compressed_length c else compressed_length c - 2)"
  let ?s1 = "s \<lparr> position := position s + 2 + ?n \<rparr>"
  from Cons.prems have f1: "position s + 2 \<le> length (buffer s)"
    and v: "read_be_u16 (buffer s) (position s) \<le> 3"
    and ge: "ex \<or> 2 \<le> compressed_length c"
    and lt: "?n < 2 ^ 63"
    and f2: "position s + 2 + ?n \<le> length (buffer s)"
    and r: "channels_readable ex (buffer ?s1) (position ?s1) (cs @ rest)"
    by (simp_all add: Let_def)
  from read_channel_image_succeeds [OF f1 v ge refl lt f2]
  obtain c' where c: "read_channel_image ex s c = (Inr c', ?s1)" by blast
  from Cons.IH [OF r] obtain cs' s' where
    i: "read_layer_channels ex ?s1 cs = (Inr cs', s')" and b: "buffer s' = buffer ?s1"
    and q: "channels_readable ex (buffer s') (position s') rest"
    by blast
  from c i b q show ?case by simp
qed

lemma read_layers_channels_succeeds:
  "channels_readable ex (buffer s) (position s) (concat (map channels ls))
     \<Longrightarrow> \<exists>ls' s'. read_layers_channels ex s ls = (Inr ls', s')"
proof (induction ls arbitrary: s)
  case Nil
  then show ?case by simp
next
  case (Cons l ls)
  from Cons.prems
  have "channels_readable ex (buffer s) (position s) (channels l @ concat (map channels ls))"
    by simp
  from read_layer_channels_succeeds [OF this] obtain cs' s1 where
    c: "read_layer_channels ex s (channels l) = (Inr cs', s1)"
    and q: "channels_readable ex (buffer s1) (position s1) (concat (map channels ls))"
    by blast
  from Cons.IH [OF q] obtain ls' s' where
    i: "read_layers_channels ex s1 ls = (Inr ls', s')" by blast
  from c i show ?case by simp
qed

text \<open>
  C1. The decision \<open>ex\<close> taken before any channel is read is the byte accounting
  \<open>sum(lengths) + 2 * count(channels) = bytes remaining in the layer-info subsection\<close>
  (computed in 64 bits as the code does; it is the equation over the natural numbers
  whenever the sum fits 64 bits). The pass succeeds whenever the channels of all the
  layers are readable under this decision: each finds its compression kind and then its
  payload in the buffer, of the stored length if the accounting holds and of the stored
  length less 2 otherwise. And whenever the pass succeeds: if the accounting holds every
  channel keeps its stored length; otherwise every stored length is at least 2 and is
  decremented by 2. Either way each channel then holds exactly \<open>compressed_length\<close>
  payload bytes, and the channels of all the layers lie in the stream one after another,
  each as a 2-byte compression kind followed by exactly those payload bytes; the stream
  has advanced by exactly these bytes.
\<close>

theorem channel_lengths_payload_only:
  assumes "position stream \<le> length (buffer stream)"
    and "ex = (sum_channel_lengths ls + 2 * total_channels ls
                 = word_of_int (layer_info_end - int (position stream)))"
  shows "(0 \<le> layer_info_end - int (position stream)
          \<and> channels_readable ex (buffer stream) (position stream) (concat (map channels ls))
          \<longrightarrow> (\<exists>ls' stream'.
                 psd_read_channel_image_data stream layer_info_end ls = (Inr ls', stream')))
    \<and> (psd_read_channel_image_data stream layer_info_end ls = (Inr ls', stream') \<longrightarrow>
         list_all2 (\<lambda>l l'. l' = l \<lparr> channels := channels l' \<rparr>
                     \<and> list_all2 (channel_payload_only ex) (channels l) (channels l')) ls ls'
         \<and> channels_at (buffer stream) (position stream) (concat (map channels ls'))
         \<and> position stream' = position stream + channels_span (concat (map channels ls'))
         \<and> buffer stream' = buffer stream
         \<and> (sum_list (map (\<lambda>c. unat (compressed_length c)) (concat (map channels ls)))
                + 2 * length (concat (map channels ls)) < 2 ^ 64
              \<and> layer_info_end - int (position stream) < 2 ^ 64 \<longrightarrow>
              ex = (int (sum_list (map (\<lambda>c. unat (compressed_length c))
                                    (concat (map channels ls)))
                         + 2 * length (concat (map channels ls)))
                    = layer_info_end - int (position stream))))"
proof (intro conjI impI)
  assume a: "0 \<le> layer_info_end - int (position stream)
    \<and> channels_readable ex (buffer stream) (position stream) (concat (map channels ls))"
  from assms(2) have e: "lengths_exclude_compression stream layer_info_end ls = ex"
    by (simp add: lengths_exclude_compression_def psd_stream_tell_def)
  from a have "\<exists>ls' stream'. read_layers_channels ex stream ls = (Inr ls', stream')"
    by (intro read_layers_channels_succeeds) simp
  with a e show "\<exists>ls' stream'.
      psd_read_channel_image_data stream layer_info_end ls = (Inr ls', stream')"
    by (simp add: psd_read_channel_image_data_def psd_stream_tell_def)
next
  assume r: "psd_read_channel_image_data stream layer_info_end ls = (Inr ls', stream')"
  note h = channel_pass_result [OF r assms]
  from h show "list_all2 (\<lambda>l l'. l' = l \<lparr> channels := channels l' \<rparr>
                     \<and> list_all2 (channel_payload_only ex) (channels l) (channels l')) ls ls'"
    by (rule conjunct1)
  from h show "channels_at (buffer stream) (position stream) (concat (map channels ls'))"
    by (elim conjE)
  from h show "position stream' = position stream + channels_span (concat (map channels ls'))"
    by (elim conjE)
  from h show "buffer stream' = buffer stream"
    by (elim conjE)
  assume "sum_list (map (\<lambda>c. unat (compressed_length c)) (concat (map channels ls)))
           + 2 * length (concat (map channels ls)) < 2 ^ 64
         \<and> layer_info_end - int (position stream) < 2 ^ 64"
  with h show "ex = (int (sum_list (map (\<lambda>c. unat (compressed_length c))
                                    (concat (map channels ls)))
                         + 2 * length (concat (map channels ls)))
                    = layer_info_end - int (position stream))"
    by (elim conjE impE) simp_all
qed

text \<open>
  Two layers, of two channels and of one channel, with the payloads \<open>11\<close>, \<open>22 33\<close>
  and \<open>44\<close> in ten bytes: once with the stored lengths 3, 4 and 3 (the compression
  field counted, so the lengths become 1, 2 and 1) and once with the stored lengths 1, 2
  and 1 (payload only, kept).
\<close>

theorem channel_lengths_payload_only_witness:
  "psd_read_channel_image_data \<lparr> buffer = [0, 0, 0x11, 0, 1, 0x22, 0x33, 0, 0, 0x44], position = 0 \<rparr> 10
       [layer_init \<lparr> channels := [channel_init \<lparr> channel_id := 0, compressed_length := 3 \<rparr>,
                                    channel_init \<lparr> channel_id := 1, compressed_length := 4 \<rparr>] \<rparr>,
        layer_init \<lparr> channels := [channel_init \<lparr> channel_id := 0, compressed_length := 3 \<rparr>] \<rparr>]
     = (Inr [layer_init \<lparr> channels :=
           [channel_init \<lparr> channel_id := 0, compression := 0, compressed_length := 1,
                          compressed_data := Some [0x11] \<rparr>,
            channel_init \<lparr> channel_id := 1, compression := 1, compressed_length := 2,
                          compressed_data := Some [0x22, 0x33] \<rparr>] \<rparr>,
        layer_init \<lparr> channels :=
           [channel_init \<lparr> channel_id := 0, compression := 0, compressed_length := 1,
                          compressed_data := Some [0x44] \<rparr>] \<rparr>],
        \<lparr> buffer = [0, 0, 0x11, 0, 1, 0x22, 0x33, 0, 0, 0x44], position = 10 \<rparr>)
   \<and> list_all2 (\<lambda>l l'. l' = l \<lparr> channels := channels l' \<rparr> \<and> list_all2 (channel_payload_only False) (channels l) (channels l'))
       [layer_init \<lparr> channels := [channel_init \<lparr> channel_id := 0, compressed_length := 3 \<rparr>,
                                    channel_init \<lparr> channel_id := 1, compressed_length := 4 \<rparr>] \<rparr>,
        layer_init \<lparr> channels := [channel_init \<lparr> channel_id := 0, compressed_length := 3 \<rparr>] \<rparr>]
       [layer_init \<lparr> channels :=
           [channel_init \<lparr> channel_id := 0, compression := 0, compressed_length := 1,
                          compressed_data := Some [0x11] \<rparr>,
            channel_init \<lparr> channel_id := 1, compression := 1, compressed_length := 2,
                          compressed_data := Some [0x22, 0x33] \<rparr>] \<rparr>,
        layer_init \<lparr> channels :=
           [channel_init \<lparr> channel_id := 0, compression := 0, compressed_length := 1,
                          compressed_data := Some [0x44] \<rparr>] \<rparr>]
   \<and> psd_read_channel_image_data \<lparr> buffer = [0, 0, 0x11, 0, 1, 0x22, 0x33, 0, 0, 0x44], position = 0 \<rparr> 10
       [layer_init \<lparr> channels := [channel_init \<lparr> channel_id := 0, compressed_length := 1 \<rparr>,
                                    channel_init \<lparr> channel_id := 1, compressed_length := 2 \<rparr>] \<rparr>,
        layer_init \<lparr> channels := [channel_init \<lparr> channel_id := 0, compressed_length := 1 \<rparr>] \<rparr>]
     = (Inr [layer_init \<lparr> channels :=
           [channel_init \<lparr> channel_id := 0, compression := 0, compressed_length := 1,
                          compressed_data := Some [0x11] \<rparr>,
            channel_init \<lparr> channel_id := 1, compression := 1, compressed_length := 2,
                          compressed_data := Some [0x22, 0x33] \<rparr>] \<rparr>,
        layer_init \<lparr> channels :=
           [channel_init \<lparr> channel_id := 0, compression := 0, compressed_length := 1,
                          compressed_data := Some [0x44] \<rparr>] \<rparr>],
        \<lparr> buffer = [0, 0, 0x11, 0, 1, 0x22, 0x33, 0, 0, 0x44], position = 10 \<rparr>)
   \<and> list_all2 (\<lambda>l l'. l' = l \<lparr> channels := channels l' \<rparr> \<and> list_all2 (channel_payload_only True) (channels l) (channels l'))
       [layer_init \<lparr> channels := [channel_init \<lparr> channel_id := 0, compressed_length := 1 \<rparr>,
                                    channel_init \<lparr> channel_id := 1, compressed_length := 2 \<rparr>] \<rparr>,
        layer_init \<lparr> channels := [channel_init \<lparr> channel_id := 0, compressed_length := 1 \<rparr>] \<rparr>]
       [layer_init \<lparr> channels :=
           [channel_init \<lparr> channel_id := 0, compression := 0, compressed_length := 1,
                          compressed_data := Some [0x11] \<rparr>,
            channel_init \<lparr> channel_id := 1, compression := 1, compressed_length := 2,
                          compressed_data := Some [0x22, 0x33] \<rparr>] \<rparr>,
        layer_init \<lparr> channels :=
           [channel_init \<lparr> channel_id := 0, compression := 0, compressed_length := 1,
                          compressed_data := Some [0x44] \<rparr>] \<rparr>]
   \<and> channels_readable False [0, 0, 0x11, 0, 1, 0x22, 0x33, 0, 0, 0x44] 0 (concat (map channels
       [layer_init \<lparr> channels := [channel_init \<lparr> channel_id := 0, compressed_length := 3 \<rparr>,
                                    channel_init \<lparr> channel_id := 1, compressed_length := 4 \<rparr>] \<rparr>,
        layer_init \<lparr> channels := [channel_init \<lparr> channel_id := 0, compressed_length := 3 \<rparr>] \<rparr>]))
   \<and> channels_readable True [0, 0, 0x11, 0, 1, 0x22, 0x33, 0, 0, 0x44] 0 (concat (map channels
       [layer_init \<lparr> channels := [channel_init \<lparr> channel_id := 0, compressed_length := 1 \<rparr>,
                                    channel_init \<lparr> channel_id := 1, compressed_length := 2 \<rparr>] \<rparr>,
        layer_init \<lparr> channels := [channel_init \<lparr> channel_id := 0, compressed_length := 1 \<rparr>] \<rparr>]))"
proof -
  let ?s = "\<lparr> buffer = [0, 0, 0x11, 0, 1, 0x22, 0x33, 0, 0, 0x44] :: u8 list, position = 0 \<rparr>"
  let ?s' = "\<lparr> buffer = [0, 0, 0x11, 0, 1, 0x22, 0x33, 0, 0, 0x44] :: u8 list, position = 10 \<rparr>"
  let ?inc = "[layer_init \<lparr> channels := [channel_init \<lparr> channel_id := 0, compressed_length := 3 \<rparr>,
                                    channel_init \<lparr> channel_id := 1, compressed_length := 4 \<rparr>] \<rparr>,
        layer_init \<lparr> channels := [channel_init \<lparr> channel_id := 0, compressed_length := 3 \<rparr>] \<rparr>]"
  let ?ex = "[layer_init \<lparr> channels := [channel_init \<lparr> channel_id := 0, compressed_length := 1 \<rparr>,
                                    channel_init \<lparr> channel_id := 1, compressed_length := 2 \<rparr>] \<rparr>,
        layer_init \<lparr> channels := [channel_init \<lparr> channel_id := 0, compressed_length := 1 \<rparr>] \<rparr>]"
  let ?res = "[layer_init \<lparr> channels :=
           [channel_init \<lparr> channel_id := 0, compression := 0, compressed_length := 1,
                          compressed_data := Some [0x11] \<rparr>,
            channel_init \<lparr> channel_id := 1, compression := 1, compressed_length := 2,
                          compressed_data := Some [0x22, 0x33] \<rparr>] \<rparr>,
        layer_init \<lparr> channels :=
           [channel_init \<lparr> channel_id := 0, compression := 0, compressed_length := 1,
                          compressed_data := Some [0x44] \<rparr>] \<rparr>]"
  have p: "position ?s \<le> length (buffer ?s)" by simp
  have ei: "False = (sum_channel_lengths ?inc + 2 * total_channels ?inc
               = word_of_int (10 - int (position ?s)))"
    by (simp add: sum_channel_lengths_def total_channels_def channel_count_def
          layer_init_def channel_init_def)
  have ee: "True = (sum_channel_lengths ?ex + 2 * total_channels ?ex
               = word_of_int (10 - int (position ?s)))"
    by (simp add: sum_channel_lengths_def total_channels_def channel_count_def
          layer_init_def channel_init_def)
  have ri: "0 \<le> 10 - int (position ?s)
      \<and> channels_readable False (buffer ?s) (position ?s) (concat (map channels ?inc))"
    by (simp add: layer_init_def channel_init_def read_be_u16_def Let_def)
  have re: "0 \<le> 10 - int (position ?s)
      \<and> channels_readable True (buffer ?s) (position ?s) (concat (map channels ?ex))"
    by (simp add: layer_init_def channel_init_def read_be_u16_def Let_def)
  have run_i: "psd_read_channel_image_data ?s 10 ?inc = (Inr ?res, ?s')"
    by (simp add: psd_read_channel_image_data_def lengths_exclude_compression_def
          sum_channel_lengths_def total_channels_def channel_count_def psd_stream_tell_def
          read_channel_image_def psd_stream_read_be16_eq psd_stream_read_def read_be_u16_def
          layer_init_def channel_init_def Let_def)
  have run_e: "psd_read_channel_image_data ?s 10 ?ex = (Inr ?res, ?s')"
    by (simp add: psd_read_channel_image_data_def lengths_exclude_compression_def
          sum_channel_lengths_def total_channels_def channel_count_def psd_stream_tell_def
          read_channel_image_def psd_stream_read_be16_eq psd_stream_read_def read_be_u16_def
          layer_init_def channel_init_def Let_def)
  from channel_lengths_payload_only [OF p ei, of ?res ?s'] run_i
  have 1: "list_all2 (\<lambda>l l'. l' = l \<lparr> channels := channels l' \<rparr> \<and> list_all2 (channel_payload_only False) (channels l) (channels l')) ?inc ?res" by blast
  from channel_lengths_payload_only [OF p ee, of ?res ?s'] run_e
  have 2: "list_all2 (\<lambda>l l'. l' = l \<lparr> channels := channels l' \<rparr> \<and> list_all2 (channel_payload_only True) (channels l) (channels l')) ?ex ?res" by blast
  from ri have 3: "channels_readable False [0, 0, 0x11, 0, 1, 0x22, 0x33, 0, 0, 0x44] 0 (concat (map channels ?inc))" by simp
  from re have 4: "channels_readable True [0, 0, 0x11, 0, 1, 0x22, 0x33, 0, 0, 0x44] 0 (concat (map channels ?ex))" by simp
  from run_i 1 run_e 2 3 4 show ?thesis by blast
qed

subsection \<open>Rendering a layer of no area\<close>

text \<open>
  C10. For every document and every valid layer index whose stored bounds satisfy
  right \<open>\<le>\<close> left or bottom \<open>\<le>\<close> top (as signed 32-bit values), the layer renderer
  treats the layer as zero-sized: given any non-null output buffer, of whatever stated
  size, it returns success, reports a required size of 0, and leaves the buffer and the
  document as they were (no channel is decoded). With a null buffer the required size 0
  is still reported, and the status is the buffer-too-small one of the size query, not
  an error about the bounds.
\<close>

theorem layer_render_zero_sized:
  assumes "0 \<le> sint idx" and "sint idx < layer_count doc"
    and "b = bounds (doc_layers doc ! nat (sint idx))"
    and "sint (bounds_right b) \<le> sint (bounds_left b)
         \<or> sint (bounds_bottom b) \<le> sint (bounds_top b)"
  shows "psd_document_render_layer_rgba8 inflate lab doc idx (Some buf) n
           = (PSD_OK, Some 0, Some buf, doc)
    \<and> psd_document_render_layer_rgba8 inflate lab doc idx None n
           = (PSD_ERR_BUFFER_TOO_SMALL, Some 0, None, doc)"
proof -
  from assms(1-3) have gb: "psd_document_get_layer_bounds doc idx = Inr b"
    by (simp add: psd_document_get_layer_bounds_def)
  let ?w = "if sint (bounds_right b) > sint (bounds_left b)
            then bounds_right b - bounds_left b else 0"
  let ?h = "if sint (bounds_bottom b) > sint (bounds_top b)
            then bounds_bottom b - bounds_top b else 0"
  from assms(4) have z: "?w = 0 \<or> ?h = 0" by auto
  then have r: "(unat ?w * unat ?h * 4) mod 2 ^ 64 = 0" by auto
  show ?thesis
    unfolding psd_document_render_layer_rgba8_def gb Let_def sum.case r
    using z by (simp add: SIZE_MAX_def)
qed

text \<open>
  A layer whose right edge (5) lies left of its left edge (30): the three bytes of the
  buffer stay as they are.
\<close>

theorem layer_render_zero_sized_witness:
  "psd_document_render_layer_rgba8 (\<lambda>framed input avail. None) (\<lambda>d8 l a b. (0, 0, 0))
     (document_init \<lparr> doc_layers :=
        [layer_init \<lparr> bounds := \<lparr> bounds_top = 10, bounds_left = 30,
                                   bounds_bottom = 20, bounds_right = 5 \<rparr> \<rparr>] \<rparr>)
     0 (Some [1, 2, 3]) 3
   = (PSD_OK, Some 0, Some [1, 2, 3],
      document_init \<lparr> doc_layers :=
        [layer_init \<lparr> bounds := \<lparr> bounds_top = 10, bounds_left = 30,
                                   bounds_bottom = 20, bounds_right = 5 \<rparr> \<rparr>] \<rparr>)"
proof -
  let ?doc = "document_init \<lparr> doc_layers :=
        [layer_init \<lparr> bounds := \<lparr> bounds_top = 10, bounds_left = 30,
                                   bounds_bottom = 20, bounds_right = 5 \<rparr> \<rparr>] \<rparr>"
  have 1: "0 \<le> sint (0 :: i32)" by simp
  have 2: "sint (0 :: i32) < layer_count ?doc" by (simp add: layer_count_def)
  have 3: "sint (bounds_right (bounds (doc_layers ?doc ! nat (sint (0 :: i32)))))
             \<le> sint (bounds_left (bounds (doc_layers ?doc ! nat (sint (0 :: i32)))))
         \<or> sint (bounds_bottom (bounds (doc_layers ?doc ! nat (sint (0 :: i32)))))
             \<le> sint (bounds_top (bounds (doc_layers ?doc ! nat (sint (0 :: i32)))))"
    by simp
  from layer_render_zero_sized [OF 1 2 refl 3] show ?thesis by simp
qed

subsection \<open>Sample reduction in the renderer\<close>



















end
